theory Spec2Isabelle
  imports Complex_Main
begin

section \<open>Exceptions, results and the data model\<close>

text \<open>
  The exceptions that the runner raises itself or receives from the client libraries.
  \<open>ClientError\<close> stands for any other exception a client library call may raise.
\<close>

datatype exn =
    KeyError string
  | IndexError
  | ValueError
  | AttributeError string
  | NeutronConflict string
  | NovaConflict string
  | ClientError string
  | DuplicateResourceException string string
  | ProvisionFailedException
  | CommandFailedException
  | CommandTimedOutException

datatype 'a res = Ok 'a | Raise exn

text \<open>
  A port is the dictionary built by \<open>create_port\<close> and \<open>detect_existing_resources\<close>;
  the key \<open>floating_ip\<close> is optional (\<open>None\<close>: the key is absent).
\<close>

record port =
  port_id :: string
  port_fixed_ip :: string
  port_mac :: string
  port_network_name :: string
  port_floating_ip :: "string option"

text \<open>One entry of a node template's \<open>networks\<close> list.\<close>

record attachment =
  att_network :: string
  att_securitygroups :: "string list"
  att_assign_floating_ip :: bool

text \<open>
  A node template (\<open>info\<close>). A key that may be missing from the dictionary is an option;
  reading a missing key raises \<open>KeyError\<close>.
\<close>

record node_info =
  info_image :: "string option"
  info_flavor :: "string option"
  info_disk :: "int option"
  info_networks :: "attachment list option"
  info_number :: "int option"
  info_export :: bool

text \<open>
  The ledger sink \<open>record_resource\<close> is a callable: the do-nothing default, or the
  writer that \<open>deploy\<close> installs when a cleanup file is given.
\<close>

datatype sink = Discard | Cleanup_file

record node =
  node_record_resource :: sink
  node_name :: string
  info :: node_info
  keypair :: "string option"
  userdata :: "string option"
  server_id :: "string option"
  fip_ids :: "string list"
  ports :: "port list"
  server_status :: "string option"
  image :: "string option"
  flavor :: "string option"
  attempts_left :: int

text \<open>One ingress rule of a security group of the stack.\<close>

record rule =
  rule_from_port :: "int option"
  rule_to_port :: "int option"
  rule_protocol :: "string option"
  rule_source_group :: "string option"
  rule_cidr :: "string option"

text \<open>The request body that \<open>create_security_group\<close> sends for one rule.\<close>

record secgroup_rule =
  direction :: string
  ethertype :: string
  port_range_min :: int
  port_range_max :: int
  protocol :: string
  security_group_id :: string
  remote_group_id :: "string option"
  remote_ip_prefix :: "string option"

text \<open>Every call the runner makes on the nova, neutron and cinder clients.\<close>

datatype api_call =
    Flavors_get string
  | Create_port string string "string list"
  | List_networks_external
  | Create_floatingip string
  | Update_floatingip string string
  | Volumes_create int string
  | Volumes_get string
  | Servers_create string string "string option" "string list" "string option" "string option"
  | Servers_get "string option"
  | Volumes_delete string
  | Delete_port string
  | Delete_network string
  | Delete_router string
  | Delete_subnet string
  | List_ports_router_interface
  | Remove_interface_router string string
  | Delete_security_group string
  | Delete_security_group_rule string
  | Delete_floatingip string
  | Keypairs_delete string
  | Servers_delete "string option"
  | Keypairs_create string string
  | Create_network string
  | Create_subnet string string string
  | Add_interface_router string string
  | Create_security_group string
  | Create_security_group_rule secgroup_rule
  | List_networks
  | List_ports
  | List_floatingips
  | List_security_groups
  | Servers_list

text \<open>What the listing calls of the cloud return.\<close>

record listed_network =
  net_name :: string
  net_id :: string

record listed_port =
  lp_id :: string
  lp_fixed_ips :: "string list"
  lp_mac_address :: string
  lp_network_id :: string

record listed_floatingip =
  fip_port_id :: "string option"
  fip_floating_ip_address :: string

record listed_secgroup =
  sg_name :: string
  sg_id :: string

text \<open>A listed server: its name, and per network of \<open>addresses\<close> the MACs of its entries.\<close>

record listed_server =
  srv_name :: string
  srv_addresses :: "string list list"

text \<open>A router-interface port: its device and the subnets of its fixed IPs.\<close>

record router_port =
  rp_device_id :: string
  rp_fixed_ip_subnets :: "string list"

text \<open>
  The cloud is an external collaborator. Its behaviour is a parameter of the model: what
  the call made at time \<open>t\<close> (the number of calls made before it) raises and returns.
  The status of a server is indexed by the name it was created under as well as by its
  id, so that a hypothesis can speak about all the servers of one node.
\<close>

record cloud =
  raises :: "nat \<Rightarrow> api_call \<Rightarrow> exn option"
  new_id :: "nat \<Rightarrow> string"
  new_fixed_ips :: "nat \<Rightarrow> string list"
  new_mac :: "nat \<Rightarrow> string"
  new_address :: "nat \<Rightarrow> string"
  external_networks :: "nat \<Rightarrow> string list"
  volume_status :: "nat \<Rightarrow> string \<Rightarrow> string"
  nova_status :: "nat \<Rightarrow> string \<Rightarrow> string option \<Rightarrow> string"
  router_interface_ports :: "nat \<Rightarrow> router_port list"
  all_networks :: "nat \<Rightarrow> listed_network list"
  all_ports :: "nat \<Rightarrow> listed_port list"
  all_floatingips :: "nat \<Rightarrow> listed_floatingip list"
  all_security_groups :: "nat \<Rightarrow> listed_secgroup list"
  all_servers :: "nat \<Rightarrow> listed_server list"

text \<open>
  The state: the fields of \<open>DeploymentRunner\<close>, the content of the cleanup file, the
  exceptions printed on standard output, and the log of the calls made on the cloud
  (\<open>tick\<close> is its length).
\<close>

record world =
  suffix :: "string option"
  mappings_images :: "string \<rightharpoonup> string"
  mappings_flavors :: "string \<rightharpoonup> string"
  mappings_networks :: "string \<rightharpoonup> string"
  mappings_routers :: "string \<rightharpoonup> string"
  key :: "string option"
  retry_count :: int
  runner_record_resource :: sink
  networks :: "string \<rightharpoonup> string"
  secgroups :: "string \<rightharpoonup> string"
  nodes :: "string \<rightharpoonup> node"
  cleanup_file :: string
  printed :: "exn list"
  tick :: nat
  calls :: "api_call list"

text \<open>
  A method is a function of the state that returns a value or raises, together with
  the state it leaves behind; \<open>None\<close> is a call that never returns.
\<close>

type_synonym 'a action = "world \<Rightarrow> ('a res \<times> world) option"

definition ret :: "'a \<Rightarrow> 'a action" where
  "ret x w = Some (Ok x, w)"

definition throw :: "exn \<Rightarrow> 'a action" where
  "throw e w = Some (Raise e, w)"

definition andthen :: "'a action \<Rightarrow> ('a \<Rightarrow> 'b action) \<Rightarrow> 'b action" where
  "andthen m f w =
     (case m w of
        None \<Rightarrow> None
      | Some (Raise e, w') \<Rightarrow> Some (Raise e, w')
      | Some (Ok x, w') \<Rightarrow> f x w')"

fun for_each :: "('a \<Rightarrow> unit action) \<Rightarrow> 'a list \<Rightarrow> unit action" where
  "for_each f [] = ret ()"
| "for_each f (x # xs) = andthen (f x) (\<lambda>_. for_each f xs)"

text \<open>One call on a client: it is logged, and the cloud decides whether it raises.\<close>

definition api :: "cloud \<Rightarrow> api_call \<Rightarrow> nat action" where
  "api c call w =
     (let t = tick w; w' = w\<lparr>tick := Suc t, calls := calls w @ [call]\<rparr>
      in case raises c t call of
           Some e \<Rightarrow> Some (Raise e, w')
         | None \<Rightarrow> Some (Ok t, w'))"

text \<open>\<open>'%d' % n\<close> for a natural number.\<close>

function string_of_nat :: "nat \<Rightarrow> string" where
  "string_of_nat n =
     (if n < 10 then [''0123456789'' ! n]
      else string_of_nat (n div 10) @ [''0123456789'' ! (n mod 10)])"
  by pat_completeness auto
termination
  by (relation "measure id") auto

declare string_of_nat.simps [simp del]


section \<open>The runner's primitives\<close>

definition add_suffix :: "world \<Rightarrow> string \<Rightarrow> string" where
  "add_suffix w s =
     (case suffix w of
        None \<Rightarrow> s
      | Some x \<Rightarrow> if x = [] then s else s @ ''_'' @ x)"

text \<open>
  The writer installed by \<open>deploy\<close> appends \<open>'%s: %s\n' % (type_, id)\<close> to the
  cleanup file; the default sink does nothing.
\<close>

definition write_sink :: "sink \<Rightarrow> string \<Rightarrow> string \<Rightarrow> unit action" where
  "write_sink s rtype ident w =
     (case s of
        Discard \<Rightarrow> Some (Ok (), w)
      | Cleanup_file \<Rightarrow>
          Some (Ok (), w\<lparr>cleanup_file := cleanup_file w @ rtype @ '': '' @ ident @ [CHR 0x0A]\<rparr>))"

definition record_resource :: "string \<Rightarrow> string \<Rightarrow> unit action" where
  "record_resource rtype ident w = write_sink (runner_record_resource w) rtype ident w"

definition map_network :: "world \<Rightarrow> string \<Rightarrow> string" where
  "map_network w net =
     (case mappings_networks w net of
        Some x \<Rightarrow> x
      | None \<Rightarrow> (case networks w net of Some x \<Rightarrow> x | None \<Rightarrow> net))"


definition delete_port :: "cloud \<Rightarrow> string \<Rightarrow> unit action" where
  "delete_port c uuid = andthen (api c (Delete_port uuid)) (\<lambda>_. ret ())"





definition delete_floatingip :: "cloud \<Rightarrow> string \<Rightarrow> unit action" where
  "delete_floatingip c uuid = andthen (api c (Delete_floatingip uuid)) (\<lambda>_. ret ())"


definition delete_server :: "cloud \<Rightarrow> string option \<Rightarrow> unit action" where
  "delete_server c uuid = andthen (api c (Servers_delete uuid)) (\<lambda>_. ret ())"

text \<open>
  \<open>delete_subnet\<close>: on a conflict, every router-interface port is searched for a fixed
  IP of the subnet; the \<open>break\<close> leaves the inner loop only, so each port that has one is
  detached (once).
\<close>

fun detach_router_ports :: "cloud \<Rightarrow> string \<Rightarrow> router_port list \<Rightarrow> bool \<Rightarrow> bool action" where
  "detach_router_ports c uuid [] router_found = ret router_found"
| "detach_router_ports c uuid (p # ps) router_found =
     (if uuid \<in> set (rp_fixed_ip_subnets p)
      then andthen (api c (Remove_interface_router (rp_device_id p) uuid))
             (\<lambda>_. detach_router_ports c uuid ps True)
      else detach_router_ports c uuid ps router_found)"

definition delete_subnet :: "cloud \<Rightarrow> string \<Rightarrow> unit action" where
  "delete_subnet c uuid w =
     (case api c (Delete_subnet uuid) w of
        None \<Rightarrow> None
      | Some (Ok _, w1) \<Rightarrow> Some (Ok (), w1)
      | Some (Raise (NeutronConflict e), w1) \<Rightarrow>
          andthen (api c List_ports_router_interface) (\<lambda>t.
          andthen (detach_router_ports c uuid (router_interface_ports c t) False) (\<lambda>router_found.
            if router_found
            then andthen (api c (Delete_subnet uuid)) (\<lambda>_. ret ())
            else throw (NeutronConflict e))) w1
      | Some (Raise e, w1) \<Rightarrow> Some (Raise e, w1))"

definition create_port :: "cloud \<Rightarrow> string \<Rightarrow> string \<Rightarrow> string list \<Rightarrow> port action" where
  "create_port c nm net sgs w =
     andthen (api c (Create_port nm (map_network w net) sgs)) (\<lambda>t.
       case new_fixed_ips c t of
         [] \<Rightarrow> throw IndexError
       | ip # _ \<Rightarrow>
           ret \<lparr>port_id = new_id c t, port_fixed_ip = ip, port_mac = new_mac c t,
                port_network_name = net, port_floating_ip = None\<rparr>) w"

definition create_keypair :: "cloud \<Rightarrow> string \<Rightarrow> string \<Rightarrow> unit action" where
  "create_keypair c nm keydata w =
     (case api c (Keypairs_create nm keydata) w of
        None \<Rightarrow> None
      | Some (Ok _, w1) \<Rightarrow> Some (Ok (), w1)
      | Some (Raise (NovaConflict e), w1) \<Rightarrow> Some (Ok (), w1)
      | Some (Raise e, w1) \<Rightarrow> Some (Raise e, w1))"

definition find_floating_network :: "cloud \<Rightarrow> string action" where
  "find_floating_network c =
     andthen (api c List_networks_external) (\<lambda>t.
       case external_networks c t of [] \<Rightarrow> throw IndexError | n # _ \<Rightarrow> ret n)"

definition create_floating_ip :: "cloud \<Rightarrow> (string \<times> string) action" where
  "create_floating_ip c =
     andthen (find_floating_network c) (\<lambda>floating_network.
     andthen (api c (Create_floatingip floating_network)) (\<lambda>t.
     andthen (record_resource ''floatingip'' (new_id c t)) (\<lambda>_.
       ret (new_id c t, new_address c t))))"

definition associate_floating_ip :: "cloud \<Rightarrow> string \<Rightarrow> string \<Rightarrow> unit action" where
  "associate_floating_ip c pid fid = andthen (api c (Update_floatingip fid pid)) (\<lambda>_. ret ())"


section \<open>Node\<close>

text \<open>
  \<open>Node.__init__\<close>. The node's own \<open>record_resource\<close> is the do-nothing callable and
  is never replaced. Image and flavor of the template go through the mappings.
\<close>

definition map_through :: "(string \<rightharpoonup> string) \<Rightarrow> string option \<Rightarrow> string option" where
  "map_through m v =
     (case v of
        None \<Rightarrow> None
      | Some x \<Rightarrow> (case m x of None \<Rightarrow> Some x | Some y \<Rightarrow> Some y))"

definition Node :: "string \<Rightarrow> node_info \<Rightarrow> world \<Rightarrow> string option \<Rightarrow> string option \<Rightarrow> node" where
  "Node nm tmpl w kp ud =
     \<lparr>node_record_resource = Discard,
      node_name = nm,
      info = tmpl\<lparr>info_image := map_through (mappings_images w) (info_image tmpl),
                  info_flavor := map_through (mappings_flavors w) (info_flavor tmpl)\<rparr>,
      keypair = kp,
      userdata = ud,
      server_id = None,
      fip_ids = [],
      ports = [],
      server_status = None,
      image = None,
      flavor = None,
      attempts_left = retry_count w + 1\<rparr>"

text \<open>
  Nodes are objects held in \<open>runner.nodes\<close> and mutated in place; a method of the node
  stored under key \<open>k\<close> reads and writes that entry.
\<close>

definition get_node :: "string \<Rightarrow> node action" where
  "get_node k w = (case nodes w k of None \<Rightarrow> throw (KeyError k) w | Some nd \<Rightarrow> ret nd w)"

definition update_node :: "string \<Rightarrow> (node \<Rightarrow> node) \<Rightarrow> unit action" where
  "update_node k f w = ret () (w\<lparr>nodes := (nodes w)(k := map_option f (nodes w k))\<rparr>)"

definition poll :: "cloud \<Rightarrow> string \<Rightarrow> string \<Rightarrow> string action" where
  "poll c k desired_status =
     andthen (get_node k) (\<lambda>nd.
       if server_status nd \<noteq> Some desired_status
       then andthen (api c (Servers_get (server_id nd))) (\<lambda>t.
            andthen (update_node k (\<lambda>n. n\<lparr>server_status :=
                        Some (nova_status c t (node_name nd) (server_id nd))\<rparr>)) (\<lambda>_.
              ret (nova_status c t (node_name nd) (server_id nd))))
       else ret desired_status)"

definition clean :: "cloud \<Rightarrow> string \<Rightarrow> unit action" where
  "clean c k =
     andthen (get_node k) (\<lambda>nd.
     andthen (for_each (delete_floatingip c) (fip_ids nd)) (\<lambda>_.
     andthen (update_node k (\<lambda>n. n\<lparr>fip_ids := []\<rparr>)) (\<lambda>_.
     andthen (for_each (\<lambda>p. delete_port c (port_id p)) (ports nd)) (\<lambda>_.
     andthen (update_node k (\<lambda>n. n\<lparr>ports := []\<rparr>)) (\<lambda>_.
     andthen (delete_server c (server_id nd)) (\<lambda>_.
       update_node k (\<lambda>n. n\<lparr>server_id := None\<rparr>)))))))"

text \<open>\<open>[self.runner.secgroups[secgroup] for secgroup in ...]\<close>\<close>

fun lookup_all :: "(string \<rightharpoonup> string) \<Rightarrow> string list \<Rightarrow> exn + string list" where
  "lookup_all m [] = Inr []"
| "lookup_all m (x # xs) =
     (case m x of
        None \<Rightarrow> Inl (KeyError x)
      | Some v \<Rightarrow> (case lookup_all m xs of Inl e \<Rightarrow> Inl e | Inr vs \<Rightarrow> Inr (v # vs)))"

text \<open>
  \<open>create_nics\<close>, from interface index \<open>eth_idx\<close> on. The port dictionary appended to
  \<open>self.ports\<close> is the object that later receives the key \<open>floating_ip\<close>: it is the last
  entry of the list at that moment.
\<close>

fun create_nics_from :: "cloud \<Rightarrow> string \<Rightarrow> nat \<Rightarrow> attachment list \<Rightarrow> string list action" where
  "create_nics_from c k eth_idx [] = ret []"
| "create_nics_from c k eth_idx (network # rest) =
     andthen (get_node k) (\<lambda>nd w.
       case lookup_all (secgroups w) (att_securitygroups network) of
         Inl e \<Rightarrow> throw e w
       | Inr sgs \<Rightarrow>
          (andthen (create_port c (node_name nd @ ''_eth'' @ string_of_nat eth_idx)
                      (att_network network) sgs) (\<lambda>port_info.
           andthen (record_resource ''port'' (port_id port_info)) (\<lambda>_.
           andthen (update_node k (\<lambda>n. n\<lparr>ports := ports n @ [port_info]\<rparr>)) (\<lambda>_.
           andthen (if att_assign_floating_ip network
                    then andthen (create_floating_ip c) (\<lambda>(fip_id, fip_address).
                         andthen (associate_floating_ip c (port_id port_info) fip_id) (\<lambda>_.
                           update_node k (\<lambda>n. n\<lparr>
                             ports := butlast (ports n)
                                        @ [port_info\<lparr>port_floating_ip := Some fip_address\<rparr>],
                             fip_ids := List.insert fip_id (fip_ids n)\<rparr>)))
                    else ret ()) (\<lambda>_.
           andthen (create_nics_from c k (Suc eth_idx) rest) (\<lambda>nics.
             ret (port_id port_info # nics))))))) w)"

definition create_nics :: "cloud \<Rightarrow> string \<Rightarrow> attachment list \<Rightarrow> string list action" where
  "create_nics c k nets = create_nics_from c k 0 nets"

text \<open>
  The wait for the volume: \<open>while volume.status != 'available'\<close>, one \<open>volumes.get\<close> per
  round. A volume that never becomes available makes the loop run forever.
\<close>

partial_function (option) await_volume ::
  "cloud \<Rightarrow> string \<Rightarrow> string \<Rightarrow> world \<Rightarrow> (unit res \<times> world) option" where
  "await_volume c vid status w =
     (if status = ''available'' then Some (Ok (), w)
      else (case api c (Volumes_get vid) w of
              None \<Rightarrow> None
            | Some (Raise e, w') \<Rightarrow> Some (Raise e, w')
            | Some (Ok t, w') \<Rightarrow> await_volume c vid (volume_status c t vid) w'))"

declare await_volume.simps [code]

text \<open>
  \<open>Node.build\<close>. The volume is recorded through the node's own \<open>record_resource\<close>, the
  server through the runner's.
\<close>

definition build :: "cloud \<Rightarrow> string \<Rightarrow> unit action" where
  "build c k =
     andthen (get_node k) (\<lambda>nd.
     andthen (case flavor nd of
                Some _ \<Rightarrow> ret ()
              | None \<Rightarrow>
                 (case info_flavor (info nd) of
                    None \<Rightarrow> throw (KeyError ''flavor'')
                  | Some f \<Rightarrow>
                      andthen (api c (Flavors_get f)) (\<lambda>_.
                        update_node k (\<lambda>n. n\<lparr>flavor := Some f\<rparr>)))) (\<lambda>_.
     andthen (case info_networks (info nd) of
                None \<Rightarrow> throw (KeyError ''networks'')
              | Some nets \<Rightarrow> create_nics c k nets) (\<lambda>nics.
     andthen (case info_disk (info nd) of
                None \<Rightarrow> throw (KeyError ''disk'')
              | Some d \<Rightarrow>
                 (case info_image (info nd) of
                    None \<Rightarrow> throw (KeyError ''image'')
                  | Some im \<Rightarrow> api c (Volumes_create d im))) (\<lambda>t.
     andthen (write_sink (node_record_resource nd) ''volume'' (new_id c t)) (\<lambda>_.
     andthen (await_volume c (new_id c t) (volume_status c t (new_id c t))) (\<lambda>_.
     andthen (get_node k) (\<lambda>nd'.
     andthen (api c (Servers_create (node_name nd) (new_id c t) (flavor nd') nics
                       (keypair nd) (userdata nd))) (\<lambda>t'.
     andthen (record_resource ''server'' (new_id c t')) (\<lambda>_.
       update_node k (\<lambda>n. n\<lparr>server_id := Some (new_id c t'),
                               attempts_left := attempts_left n - 1\<rparr>))))))))))"

text \<open>The property \<open>Node.floating_ip\<close>: the loop over \<open>self.ports\<close>.\<close>

fun first_floating_ip :: "port list \<Rightarrow> string option" where
  "first_floating_ip [] = None"
| "first_floating_ip (p # ps) =
     (case port_floating_ip p of
        Some a \<Rightarrow> Some a
      | None \<Rightarrow> first_floating_ip ps)"

definition floating_ip :: "node \<Rightarrow> string option" where
  "floating_ip nd = first_floating_ip (ports nd)"


section \<open>The stack orchestrator\<close>

text \<open>
  \<open>_poll_pending_nodes\<close>: the loop over the pending names, with the set \<open>done\<close>; the
  result is \<open>pending_nodes.difference(done)\<close>. The pending set is a list without
  repetition, iterated in its order.
\<close>

fun poll_nodes :: "cloud \<Rightarrow> string list \<Rightarrow> string list \<Rightarrow> string list action" where
  "poll_nodes c [] done = ret done"
| "poll_nodes c (nm # rest) done =
     andthen (poll c nm ''ACTIVE'') (\<lambda>state.
       if state = ''ACTIVE'' then poll_nodes c rest (List.insert nm done)
       else if state = ''ERROR'' then
         (\<lambda>w. if retry_count w \<noteq> 0
              then andthen (clean c nm) (\<lambda>_.
                   andthen (get_node nm) (\<lambda>nd.
                     if attempts_left nd \<noteq> 0
                     then andthen (build c nm) (\<lambda>_. poll_nodes c rest done)
                     else throw ProvisionFailedException)) w
              else throw ProvisionFailedException w)
       else poll_nodes c rest done)"

definition poll_pending_nodes :: "cloud \<Rightarrow> string list \<Rightarrow> string list action" where
  "poll_pending_nodes c pending_nodes =
     andthen (poll_nodes c pending_nodes []) (\<lambda>done.
       ret (filter (\<lambda>n. n \<notin> set done) pending_nodes))"

text \<open>
  The barrier of \<open>provision_step\<close>: \<open>while True\<close>, one round of polling, until nothing is
  pending. It has no deadline.
\<close>

partial_function (option) await_pending ::
  "cloud \<Rightarrow> string list \<Rightarrow> world \<Rightarrow> (unit res \<times> world) option" where
  "await_pending c pending_nodes w =
     (case poll_pending_nodes c pending_nodes w of
        None \<Rightarrow> None
      | Some (Raise e, w') \<Rightarrow> Some (Raise e, w')
      | Some (Ok pending', w') \<Rightarrow>
          if pending' = [] then Some (Ok (), w') else await_pending c pending' w')"

declare await_pending.simps [code]

definition create_node ::
  "cloud \<Rightarrow> string \<Rightarrow> node_info \<Rightarrow> string option \<Rightarrow> string option \<Rightarrow> string option action" where
  "create_node c base_name tmpl keypair_name ud w =
     (if base_name \<in> dom (nodes w) then ret None w
      else andthen (build c base_name) (\<lambda>_. ret (Some base_name))
             (w\<lparr>nodes := (nodes w)(base_name \<mapsto>
                   Node (add_suffix w base_name) tmpl w keypair_name ud)\<rparr>))"

text \<open>\<open>create_network\<close>; \<open>cidr\<close> is \<open>info['cidr']\<close>, \<open>None\<close> when the key is missing.\<close>

definition create_network :: "cloud \<Rightarrow> string \<Rightarrow> string option \<Rightarrow> string action" where
  "create_network c nm cidr =
     andthen (api c (Create_network nm)) (\<lambda>t.
     andthen (record_resource ''network'' (new_id c t)) (\<lambda>_.
     andthen (case cidr of
                None \<Rightarrow> throw (KeyError ''cidr'')
              | Some cd \<Rightarrow> api c (Create_subnet (new_id c t) cd nm)) (\<lambda>t'.
     andthen (record_resource ''subnet'' (new_id c t')) (\<lambda>_.
     andthen (\<lambda>w. case mappings_routers w ''*'' of
                    None \<Rightarrow> ret () w
                  | Some router \<Rightarrow>
                      andthen (api c (Add_interface_router router (new_id c t')))
                        (\<lambda>_. ret ()) w) (\<lambda>_.
       ret (new_id c t))))))"

text \<open>
  The request body of one rule, as \<open>create_security_group\<close> builds it from the rule,
  the naming table \<open>self.secgroups\<close> and the id of the group.
\<close>

definition rule_body :: "(string \<rightharpoonup> string) \<Rightarrow> string \<Rightarrow> rule \<Rightarrow> exn + secgroup_rule" where
  "rule_body table gid r =
     (case rule_from_port r of
        None \<Rightarrow> Inl (KeyError ''from_port'')
      | Some lo \<Rightarrow>
     (case rule_to_port r of
        None \<Rightarrow> Inl (KeyError ''to_port'')
      | Some hi \<Rightarrow>
     (case rule_protocol r of
        None \<Rightarrow> Inl (KeyError ''protocol'')
      | Some proto \<Rightarrow>
     (case rule_source_group r of
        Some g \<Rightarrow>
          Inr \<lparr>direction = ''ingress'', ethertype = ''IPv4'', port_range_min = lo,
               port_range_max = hi, protocol = proto, security_group_id = gid,
               remote_group_id = Some (case table g of Some i \<Rightarrow> i | None \<Rightarrow> g),
               remote_ip_prefix = None\<rparr>
      | None \<Rightarrow>
         (case rule_cidr r of
            None \<Rightarrow> Inl (KeyError ''cidr'')
          | Some cd \<Rightarrow>
              Inr \<lparr>direction = ''ingress'', ethertype = ''IPv4'', port_range_min = lo,
                   port_range_max = hi, protocol = proto, security_group_id = gid,
                   remote_group_id = None, remote_ip_prefix = Some cd\<rparr>)))))"

fun create_rules :: "cloud \<Rightarrow> string \<Rightarrow> rule list \<Rightarrow> unit action" where
  "create_rules c gid [] = ret ()"
| "create_rules c gid (r # rs) =
     (\<lambda>w. case rule_body (secgroups w) gid r of
            Inl e \<Rightarrow> throw e w
          | Inr body \<Rightarrow>
              andthen (api c (Create_security_group_rule body)) (\<lambda>t.
              andthen (record_resource ''secgroup_rule'' (new_id c t)) (\<lambda>_.
                create_rules c gid rs)) w)"

definition create_security_group :: "cloud \<Rightarrow> string \<Rightarrow> rule list option \<Rightarrow> unit action" where
  "create_security_group c base_name rules w =
     andthen (api c (Create_security_group (add_suffix w base_name))) (\<lambda>t.
     andthen (record_resource ''secgroup'' (new_id c t)) (\<lambda>_.
     andthen (\<lambda>w'. ret () (w'\<lparr>secgroups := (secgroups w')(base_name \<mapsto> new_id c t)\<rparr>)) (\<lambda>_.
       create_rules c (new_id c t) (case rules of None \<Rightarrow> [] | Some rs \<Rightarrow> rs)))) w"

text \<open>
  A stack, as \<open>load_yaml\<close> returns it: the three sections in the order of their items;
  \<open>None\<close> is a missing section.
\<close>

record stack =
  stack_networks :: "(string \<times> string option) list option"
  stack_securitygroups :: "(string \<times> rule list option) list option"
  stack_nodes :: "(string \<times> node_info) list option"

fun provision_networks :: "cloud \<Rightarrow> (string \<times> string option) list \<Rightarrow> unit action" where
  "provision_networks c [] = ret ()"
| "provision_networks c ((base_network_name, cidr) # rest) =
     (\<lambda>w. if base_network_name \<in> dom (networks w) then provision_networks c rest w
          else andthen (create_network c (add_suffix w base_network_name) cidr) (\<lambda>nid.
               andthen (\<lambda>w'. ret () (w'\<lparr>networks := (networks w')(base_network_name \<mapsto> nid)\<rparr>))
                 (\<lambda>_. provision_networks c rest)) w)"

fun provision_secgroups :: "cloud \<Rightarrow> (string \<times> rule list option) list \<Rightarrow> unit action" where
  "provision_secgroups c [] = ret ()"
| "provision_secgroups c ((base_secgroup_name, rules) # rest) =
     (\<lambda>w. if base_secgroup_name \<in> dom (secgroups w) then provision_secgroups c rest w
          else andthen (create_security_group c base_secgroup_name rules)
                 (\<lambda>_. provision_secgroups c rest) w)"

text \<open>\<open>if name: pending_nodes.add(name)\<close>: the empty name counts as no name.\<close>

definition add_pending :: "string option \<Rightarrow> string list \<Rightarrow> string list" where
  "add_pending nm pending_nodes =
     (case nm of
        None \<Rightarrow> pending_nodes
      | Some n \<Rightarrow> if n = [] then pending_nodes else List.insert n pending_nodes)"

fun provision_replicas ::
  "cloud \<Rightarrow> string option \<Rightarrow> string option \<Rightarrow> string \<Rightarrow> node_info \<Rightarrow> int list \<Rightarrow>
   string list \<Rightarrow> string list action" where
  "provision_replicas c kp ud base_node_name tmpl [] pending_nodes = ret pending_nodes"
| "provision_replicas c kp ud base_node_name tmpl (idx # rest) pending_nodes =
     andthen (create_node c (base_node_name @ string_of_nat (nat idx)) tmpl kp ud) (\<lambda>nm.
       provision_replicas c kp ud base_node_name tmpl rest (add_pending nm pending_nodes))"

fun provision_nodes ::
  "cloud \<Rightarrow> string option \<Rightarrow> string option \<Rightarrow> (string \<times> node_info) list \<Rightarrow>
   string list \<Rightarrow> string list action" where
  "provision_nodes c kp ud [] pending_nodes = ret pending_nodes"
| "provision_nodes c kp ud ((base_node_name, tmpl) # rest) pending_nodes =
     (case info_number tmpl of
        Some count \<Rightarrow>
          andthen (provision_replicas c kp ud base_node_name (tmpl\<lparr>info_number := None\<rparr>)
                     [1..count] pending_nodes)
            (\<lambda>pending'. provision_nodes c kp ud rest pending')
      | None \<Rightarrow>
          andthen (create_node c base_node_name tmpl kp ud) (\<lambda>nm.
            provision_nodes c kp ud rest (add_pending nm pending_nodes)))"

text \<open>
  \<open>provision_step\<close>, from the loaded stack and the content of the userdata file (if the
  step names one).
\<close>

definition provision_step :: "cloud \<Rightarrow> stack \<Rightarrow> string option \<Rightarrow> unit action" where
  "provision_step c st ud =
     andthen (\<lambda>w. case key w of
                    None \<Rightarrow> ret None w
                  | Some keydata \<Rightarrow>
                      if keydata = [] then ret None w
                      else andthen (create_keypair c (add_suffix w ''pubkey'') keydata) (\<lambda>_.
                           andthen (record_resource ''keypair'' (add_suffix w ''pubkey'')) (\<lambda>_.
                             ret (Some (add_suffix w ''pubkey'')))) w) (\<lambda>keypair_name.
     andthen (case stack_networks st of
                None \<Rightarrow> throw (KeyError ''networks'')
              | Some nets \<Rightarrow> provision_networks c nets) (\<lambda>_.
     andthen (case stack_securitygroups st of
                None \<Rightarrow> throw (KeyError ''securitygroups'')
              | Some sgs \<Rightarrow> provision_secgroups c sgs) (\<lambda>_.
     andthen (case stack_nodes st of
                None \<Rightarrow> throw (KeyError ''nodes'')
              | Some nds \<Rightarrow> provision_nodes c keypair_name ud nds []) (\<lambda>pending_nodes.
       await_pending c pending_nodes))))"


section \<open>Reconciliation with existing resources\<close>

definition endswith :: "string \<Rightarrow> string \<Rightarrow> bool" where
  "endswith s sfx = (length sfx \<le> length s \<and> drop (length s - length sfx) s = sfx)"

text \<open>\<open>s[:-len(suffix)]\<close> when the suffix is not empty, \<open>s\<close> otherwise.\<close>

definition strip_suffix :: "string \<Rightarrow> string \<Rightarrow> string" where
  "strip_suffix sfx s = (if sfx \<noteq> [] then take (length s - length sfx) s else s)"

definition empty_info :: node_info where
  "empty_info = \<lparr>info_image = None, info_flavor = None, info_disk = None,
                  info_networks = None, info_number = None, info_export = False\<rparr>"

fun detect_networks ::
  "string \<Rightarrow> listed_network list \<Rightarrow> (string \<rightharpoonup> string) \<Rightarrow> (string \<rightharpoonup> string) action" where
  "detect_networks sfx [] network_name_by_id = ret network_name_by_id"
| "detect_networks sfx (network # rest) network_name_by_id =
     (if endswith (net_name network) sfx
      then (\<lambda>w. if strip_suffix sfx (net_name network) \<in> dom (networks w)
                then throw (DuplicateResourceException ''Network'' (net_name network)) w
                else detect_networks sfx rest
                       (network_name_by_id(net_id network \<mapsto> strip_suffix sfx (net_name network)))
                       (w\<lparr>networks := (networks w)(strip_suffix sfx (net_name network)
                                                    \<mapsto> net_id network)\<rparr>))
      else detect_networks sfx rest network_name_by_id)"

fun raw_ports :: "(string \<rightharpoonup> string) \<Rightarrow> listed_port list \<Rightarrow> exn + port list" where
  "raw_ports network_name_by_id [] = Inr []"
| "raw_ports network_name_by_id (p # ps) =
     (case lp_fixed_ips p of
        [] \<Rightarrow> Inl IndexError
      | ip # _ \<Rightarrow>
         (case raw_ports network_name_by_id ps of
            Inl e \<Rightarrow> Inl e
          | Inr rs \<Rightarrow>
              Inr (\<lparr>port_id = lp_id p, port_fixed_ip = ip, port_mac = lp_mac_address p,
                    port_network_name =
                      (case network_name_by_id (lp_network_id p) of
                         Some n \<Rightarrow> n
                       | None \<Rightarrow> lp_network_id p),
                    port_floating_ip = None\<rparr> # rs)))"

text \<open>
  \<open>ports_by_id\<close> and \<open>ports_by_mac\<close> hold the port objects of \<open>raw_ports\<close> themselves: a
  dictionary is a map from the key to the position of the object in \<open>raw_ports\<close>, the
  last port with a key winning.
\<close>

fun index_from :: "(port \<Rightarrow> string) \<Rightarrow> nat \<Rightarrow> port list \<Rightarrow> (string \<rightharpoonup> nat) \<Rightarrow> (string \<rightharpoonup> nat)" where
  "index_from f i [] acc = acc"
| "index_from f i (p # ps) acc = index_from f (Suc i) ps (acc(f p \<mapsto> i))"

fun attach_floatingips ::
  "(string \<rightharpoonup> nat) \<Rightarrow> listed_floatingip list \<Rightarrow> port list \<Rightarrow> exn + port list" where
  "attach_floatingips ports_by_id [] raw = Inr raw"
| "attach_floatingips ports_by_id (fip # rest) raw =
     (case fip_port_id fip of
        None \<Rightarrow> attach_floatingips ports_by_id rest raw
      | Some pid \<Rightarrow>
          if pid = [] then attach_floatingips ports_by_id rest raw
          else (case ports_by_id pid of
                  None \<Rightarrow> Inl (KeyError pid)
                | Some i \<Rightarrow>
                    attach_floatingips ports_by_id rest
                      (raw[i := (raw ! i)\<lparr>port_floating_ip :=
                                   Some (fip_floating_ip_address fip)\<rparr>])))"

fun detect_secgroups :: "string \<Rightarrow> listed_secgroup list \<Rightarrow> unit action" where
  "detect_secgroups sfx [] = ret ()"
| "detect_secgroups sfx (secgroup # rest) =
     (if endswith (sg_name secgroup) sfx
      then (\<lambda>w. if strip_suffix sfx (sg_name secgroup) \<in> dom (secgroups w)
                then throw (DuplicateResourceException ''Security Group'' (sg_name secgroup)) w
                else detect_secgroups sfx rest
                       (w\<lparr>secgroups := (secgroups w)(strip_suffix sfx (sg_name secgroup)
                                                      \<mapsto> sg_id secgroup)\<rparr>))
      else detect_secgroups sfx rest)"

fun append_ports ::
  "string \<Rightarrow> (string \<rightharpoonup> nat) \<Rightarrow> port list \<Rightarrow> string list list \<Rightarrow> unit action" where
  "append_ports base_name ports_by_mac raw [] = ret ()"
| "append_ports base_name ports_by_mac raw (address # rest) =
     (case address of
        [] \<Rightarrow> throw IndexError
      | m # _ \<Rightarrow>
         (case ports_by_mac m of
            None \<Rightarrow> throw (KeyError m)
          | Some i \<Rightarrow>
              andthen (update_node base_name (\<lambda>n. n\<lparr>ports := ports n @ [raw ! i]\<rparr>))
                (\<lambda>_. append_ports base_name ports_by_mac raw rest)))"

fun detect_servers ::
  "string \<Rightarrow> (string \<rightharpoonup> nat) \<Rightarrow> port list \<Rightarrow> listed_server list \<Rightarrow> unit action" where
  "detect_servers sfx ports_by_mac raw [] = ret ()"
| "detect_servers sfx ports_by_mac raw (srv # rest) =
     (if endswith (srv_name srv) sfx
      then (\<lambda>w. if strip_suffix sfx (srv_name srv) \<in> dom (nodes w)
                then throw (DuplicateResourceException ''Node'' (srv_name srv)) w
                else andthen (append_ports (strip_suffix sfx (srv_name srv)) ports_by_mac raw
                                (srv_addresses srv))
                       (\<lambda>_. detect_servers sfx ports_by_mac raw rest)
                       (w\<lparr>nodes := (nodes w)(strip_suffix sfx (srv_name srv) \<mapsto>
                             Node (srv_name srv) empty_info w None None)\<rparr>))
      else detect_servers sfx ports_by_mac raw rest)"

definition detect_existing_resources :: "cloud \<Rightarrow> unit action" where
  "detect_existing_resources c w =
     andthen (api c List_networks) (\<lambda>t.
     andthen (detect_networks (add_suffix w []) (all_networks c t) Map.empty)
       (\<lambda>network_name_by_id.
     andthen (api c List_ports) (\<lambda>t.
       case raw_ports network_name_by_id (all_ports c t) of
         Inl e \<Rightarrow> throw e
       | Inr raw \<Rightarrow>
     andthen (api c List_floatingips) (\<lambda>t.
       case attach_floatingips (index_from port_id 0 raw Map.empty) (all_floatingips c t) raw of
         Inl e \<Rightarrow> throw e
       | Inr raw' \<Rightarrow>
     andthen (api c List_security_groups) (\<lambda>t.
     andthen (detect_secgroups (add_suffix w []) (all_security_groups c t)) (\<lambda>_.
     andthen (api c Servers_list) (\<lambda>t.
       detect_servers (add_suffix w []) (index_from port_mac 0 raw Map.empty) raw'
         (all_servers c t)))))))) w"

section \<open>Cleanup from the ledger\<close>










section \<open>Shell steps\<close>

text \<open>
  \<open>run_cmd_once\<close>. The process and the clock are inputs: each round of the loop sees
  what \<open>proc.poll()\<close> returns (\<open>None\<close> while the process runs) and what \<open>time.time()\<close>
  reads at the deadline test. A list that ends before the loop does is a call that has
  not returned. Feeding the script to the process has no part in the outcome.
\<close>

fun run_cmd_once :: "real option \<Rightarrow> (int option \<times> real) list \<Rightarrow> unit res option" where
  "run_cmd_once deadline [] = None"
| "run_cmd_once deadline ((returncode, now) # rest) =
     (case returncode of
        Some rc \<Rightarrow> if rc = 0 then Some (Ok ()) else Some (Raise CommandFailedException)
      | None \<Rightarrow>
         (case deadline of
            None \<Rightarrow> run_cmd_once deadline rest
          | Some d \<Rightarrow>
              if d \<noteq> 0 \<and> now > d then Some (Raise CommandTimedOutException)
              else run_cmd_once deadline rest))"

text \<open>
  The settings of a shell step. The times are the values of \<open>utils.parse_time\<close> (a
  module that is not part of the sources at hand); \<open>None\<close> is a key that is missing or
  false.
\<close>

record details =
  total_timeout :: "real option"
  timeout :: "real option"
  retry_delay :: "real option"
  retry_if_fails :: bool

text \<open>
  One attempt as the loop of \<open>shell_step\<close> sees it: the clock when the deadline is
  computed, the rounds of \<open>run_cmd_once\<close>, and the clock in the handler of the timeout.
\<close>

record attempt =
  started :: real
  observed :: "(int option \<times> real) list"
  handled :: real

definition attempt_deadline :: "real option \<Rightarrow> real option \<Rightarrow> real \<Rightarrow> real option" where
  "attempt_deadline individual_exec_limit overall_deadline now =
     (case individual_exec_limit of
        Some lmt \<Rightarrow>
          if lmt \<noteq> 0
          then (case overall_deadline of
                  Some od \<Rightarrow> if od \<noteq> 0 \<and> now + lmt > od then Some od else Some (now + lmt)
                | None \<Rightarrow> Some (now + lmt))
          else (case overall_deadline of
                  Some od \<Rightarrow> if od \<noteq> 0 then Some od else None
                | None \<Rightarrow> None)
      | None \<Rightarrow>
          (case overall_deadline of
             Some od \<Rightarrow> if od \<noteq> 0 then Some od else None
           | None \<Rightarrow> None))"

text \<open>
  The \<open>while True\<close> of \<open>shell_step\<close>, with the number of attempts made so far. The
  result is the number of attempts made and how the step ended.
\<close>

fun shell_loop ::
  "bool \<Rightarrow> real \<Rightarrow> real option \<Rightarrow> real option \<Rightarrow> attempt list \<Rightarrow> nat \<Rightarrow> (nat \<times> unit res) option" where
  "shell_loop retry delay individual_exec_limit overall_deadline [] n = None"
| "shell_loop retry delay individual_exec_limit overall_deadline (a # rest) n =
     (case run_cmd_once (attempt_deadline individual_exec_limit overall_deadline (started a))
             (observed a) of
        None \<Rightarrow> None
      | Some (Ok _) \<Rightarrow> Some (Suc n, Ok ())
      | Some (Raise CommandTimedOutException) \<Rightarrow>
          if retry \<and>
             (case attempt_deadline individual_exec_limit overall_deadline (started a) of
                None \<Rightarrow> False
              | Some deadline \<Rightarrow> handled a + delay < deadline)
          then shell_loop retry delay individual_exec_limit overall_deadline rest (Suc n)
          else Some (Suc n, Raise CommandTimedOutException)
      | Some (Raise CommandFailedException) \<Rightarrow>
          if retry
          then shell_loop retry delay individual_exec_limit overall_deadline rest (Suc n)
          else Some (Suc n, Raise CommandFailedException)
      | Some (Raise e) \<Rightarrow> Some (Suc n, Raise e))"

definition shell_step :: "details \<Rightarrow> real \<Rightarrow> attempt list \<Rightarrow> (nat \<times> unit res) option" where
  "shell_step d now attempts =
     shell_loop (retry_if_fails d)
       (case retry_delay d of Some x \<Rightarrow> x | None \<Rightarrow> 0)
       (timeout d)
       (case total_timeout d of Some x \<Rightarrow> Some (now + x) | None \<Rightarrow> None)
       attempts 0"

section \<open>Vocabulary of the properties\<close>


text \<open>
  The logical names that reconciliation derives from the names of the listed resources
  of one kind: of those that end with the suffix, the name without it.
\<close>

definition base_names :: "string \<Rightarrow> string list \<Rightarrow> string list" where
  "base_names sfx names = map (strip_suffix sfx) (filter (\<lambda>n. endswith n sfx) names)"

text \<open>
  What reconciliation needs of the listings it reads, the first of them at time \<open>t\<close>:
  every listed port has a fixed IP, every floating IP that names a port names a listed
  one, and every address of a listed server has an entry whose MAC is that of a listed
  port.
\<close>

definition ports_consistent :: "cloud \<Rightarrow> nat \<Rightarrow> bool" where
  "ports_consistent c t =
     ((\<forall>p \<in> set (all_ports c (t + 1)). lp_fixed_ips p \<noteq> [])
      \<and> (\<forall>fip \<in> set (all_floatingips c (t + 2)). \<forall>pid.
            fip_port_id fip = Some pid \<longrightarrow> pid \<noteq> [] \<longrightarrow>
              pid \<in> lp_id ` set (all_ports c (t + 1))))"

definition servers_consistent :: "cloud \<Rightarrow> nat \<Rightarrow> bool" where
  "servers_consistent c t =
     (\<forall>s \<in> set (all_servers c (t + 4)). \<forall>a \<in> set (srv_addresses s).
        a \<noteq> [] \<and> hd a \<in> lp_mac_address ` set (all_ports c (t + 1)))"

text \<open>
  The line that the writer of \<open>deploy\<close> appends for an entry, the kinds of resource the
  runner records, and an id as the cloud hands them out: not empty, without white space
  and without a colon.
\<close>

definition ledger_line :: "string \<times> string \<Rightarrow> string" where
  "ledger_line entry = fst entry @ '': '' @ snd entry @ [CHR 0x0A]"




text \<open>
  A method call that returns normally, in a state of which \<open>Q\<close> holds.
\<close>

definition returns :: "'a action \<Rightarrow> world \<Rightarrow> ('a \<Rightarrow> world \<Rightarrow> bool) \<Rightarrow> bool" where
  "returns m w Q = (\<exists>x w'. m w = Some (Ok x, w') \<and> Q x w')"

text \<open>
  The servers created in a log of calls, by the names they were created under, and the
  number of times \<open>build()\<close> has created the server of a node: a \<open>build()\<close> that returns
  has made exactly one \<open>servers.create\<close> call, its last call on the cloud.
\<close>

fun created_name :: "api_call \<Rightarrow> string option" where
  "created_name (Servers_create nm vol flv nics kp ud) = Some nm"
| "created_name call = None"

definition servers_created :: "api_call list \<Rightarrow> string list" where
  "servers_created cs = List.map_filter created_name cs"

definition builds_of :: "string \<Rightarrow> world \<Rightarrow> nat" where
  "builds_of nm w = count_list (servers_created (calls w)) nm"

text \<open>
  A cloud on which provisioning cannot fail but by the state of a server: no call
  raises, a created port has a fixed IP, there is an external network, and a volume
  becomes available some time after any moment.
\<close>

definition cooperative :: "cloud \<Rightarrow> bool" where
  "cooperative c =
     ((\<forall>t call. raises c t call = None)
      \<and> (\<forall>t. new_fixed_ips c t \<noteq> [])
      \<and> (\<forall>t. external_networks c t \<noteq> [])
      \<and> (\<forall>t v. \<exists>n. volume_status c (t + n) v = ''available''))"

text \<open>
  A node whose template has what \<open>build()\<close> reads: flavor, disk, image, and network
  attachments whose security groups are all in the naming table.
\<close>

definition buildable :: "(string \<rightharpoonup> string) \<Rightarrow> node \<Rightarrow> bool" where
  "buildable table nd =
     (info_flavor (info nd) \<noteq> None \<and> info_disk (info nd) \<noteq> None
      \<and> info_image (info nd) \<noteq> None
      \<and> (\<exists>nets. info_networks (info nd) = Some nets
             \<and> list_all (\<lambda>a. list_all (\<lambda>g. table g \<noteq> None) (att_securitygroups a)) nets))"

text \<open>
  Two states with the same runner settings and naming tables: they differ at most in
  the nodes, the cleanup file and the log of calls.
\<close>

definition runner_kept :: "world \<Rightarrow> world \<Rightarrow> bool" where
  "runner_kept w w' =
     (\<exists>N F T C. w' = w\<lparr>nodes := N, cleanup_file := F, tick := T, calls := C\<rparr>)"

text \<open>
  A step on the node stored under \<open>k\<close>: the runner's settings and the other nodes are
  as before, the node keeps its name, template and cached status, its attempts go down
  by \<open>d\<close>, and the servers created in the step are \<open>names\<close>.
\<close>

definition moved :: "string \<Rightarrow> int \<Rightarrow> string list \<Rightarrow> world \<Rightarrow> world \<Rightarrow> bool" where
  "moved k d names w w' =
     (runner_kept w w'
      \<and> (\<forall>k'. k' \<noteq> k \<longrightarrow> nodes w' k' = nodes w k')
      \<and> (\<exists>nd nd'. nodes w k = Some nd \<and> nodes w' k = Some nd'
            \<and> node_name nd' = node_name nd \<and> info nd' = info nd
            \<and> keypair nd' = keypair nd \<and> userdata nd' = userdata nd
            \<and> node_record_resource nd' = node_record_resource nd
            \<and> server_status nd' = server_status nd
            \<and> attempts_left nd' = attempts_left nd - d)
      \<and> servers_created (calls w') = servers_created (calls w) @ names)"

text \<open>The same for a step that may also refresh the cached status of the node.\<close>

definition advanced :: "string \<Rightarrow> int \<Rightarrow> string list \<Rightarrow> world \<Rightarrow> world \<Rightarrow> bool" where
  "advanced k d names w w' =
     (runner_kept w w'
      \<and> (\<forall>k'. k' \<noteq> k \<longrightarrow> nodes w' k' = nodes w k')
      \<and> (\<exists>nd nd'. nodes w k = Some nd \<and> nodes w' k = Some nd'
            \<and> node_name nd' = node_name nd \<and> info nd' = info nd
            \<and> attempts_left nd' = attempts_left nd - d)
      \<and> servers_created (calls w') = servers_created (calls w) @ names)"

text \<open>
  A pending node in a round of the barrier in which the node under key \<open>k\<close>, whose
  servers are named \<open>T\<close>, has \<open>A\<close> attempts left: the node can be built, it has at least
  \<open>A\<close> attempts left, and it is named \<open>T\<close> only if it is that node, which then has
  exactly \<open>A\<close> attempts left and is not known to be active.
\<close>

definition fit :: "string \<Rightarrow> string \<Rightarrow> world \<Rightarrow> string \<Rightarrow> int \<Rightarrow> bool" where
  "fit k T w j A =
     (\<exists>nd. nodes w j = Some nd \<and> buildable (secgroups w) nd \<and> A \<le> attempts_left nd
        \<and> (if j = k
            then node_name nd = T \<and> attempts_left nd = A \<and> server_status nd \<noteq> Some ''ACTIVE''
            else node_name nd \<noteq> T))"

section \<open>Sample inputs\<close>

text \<open>
  \<open>DeploymentRunner(suffix=..., key=..., retry_count=...)\<close> with no mappings, before any
  call was made and with an empty cleanup file. The constructor ignores its argument
  \<open>record_resource\<close> and installs the do-nothing sink; \<open>deploy\<close> replaces it afterwards.
\<close>

definition DeploymentRunner :: "string option \<Rightarrow> string option \<Rightarrow> int \<Rightarrow> world" where
  "DeploymentRunner sfx ky rc =
     \<lparr>suffix = sfx, mappings_images = Map.empty, mappings_flavors = Map.empty,
      mappings_networks = Map.empty, mappings_routers = Map.empty, key = ky,
      retry_count = rc, runner_record_resource = Discard, networks = Map.empty,
      secgroups = Map.empty, nodes = Map.empty, cleanup_file = [], printed = [],
      tick = 0, calls = []\<rparr>"

text \<open>
  A cloud in which no call raises, every volume is available at once, every server is
  in the state \<open>st\<close>, and nothing exists yet. Ids and addresses are numbered by the time
  of the call that creates them.
\<close>

definition steady_cloud :: "string \<Rightarrow> cloud" where
  "steady_cloud st =
     \<lparr>raises = (\<lambda>t call. None),
      new_id = (\<lambda>t. ''id'' @ string_of_nat t),
      new_fixed_ips = (\<lambda>t. [''10.0.0.'' @ string_of_nat t]),
      new_mac = (\<lambda>t. ''mac'' @ string_of_nat t),
      new_address = (\<lambda>t. ''172.24.4.'' @ string_of_nat t),
      external_networks = (\<lambda>t. [''public'']),
      volume_status = (\<lambda>t v. ''available''),
      nova_status = (\<lambda>t nm sid. st),
      router_interface_ports = (\<lambda>t. []),
      all_networks = (\<lambda>t. []),
      all_ports = (\<lambda>t. []),
      all_floatingips = (\<lambda>t. []),
      all_security_groups = (\<lambda>t. []),
      all_servers = (\<lambda>t. [])\<rparr>"

text \<open>A node template with one network attachment that asks for a floating IP.\<close>

definition web_template :: node_info where
  "web_template =
     \<lparr>info_image = Some ''trusty'', info_flavor = Some ''m1.small'', info_disk = Some 10,
      info_networks = Some [\<lparr>att_network = ''private'', att_securitygroups = [],
                              att_assign_floating_ip = True\<rparr>],
      info_number = None, info_export = False\<rparr>"

section \<open>Properties\<close>

text \<open>The definitions that evaluating a run on a sample input unfolds.\<close>

lemmas eval_defs = create_node_def DeploymentRunner_def steady_cloud_def build_def andthen_def get_node_def ret_def throw_def Node_def web_template_def
     api_def create_nics_def add_suffix_def map_through_def update_node_def create_port_def map_network_def record_resource_def write_sink_def
    create_floating_ip_def find_floating_network_def associate_floating_ip_def await_volume.simps clean_def delete_floatingip_def delete_server_def delete_port_def


subsection \<open>Sequencing and frames\<close>

lemma andthen_Ok_iff:
  "andthen m f w = Some (Ok y, w'') \<longleftrightarrow>
     (\<exists>x w'. m w = Some (Ok x, w') \<and> f x w' = Some (Ok y, w''))"
  by (auto simp: andthen_def split: option.splits res.splits prod.splits)

lemma api_nodes: "api c call w = Some (r, w') \<Longrightarrow> nodes w' = nodes w"
  by (auto simp: api_def Let_def split: option.splits)

lemma delete_floatingip_nodes:
  "delete_floatingip c u w = Some (r, w') \<Longrightarrow> nodes w' = nodes w"
  by (auto simp: delete_floatingip_def andthen_def ret_def
      split: option.splits res.splits prod.splits dest: api_nodes)

lemma delete_port_nodes: "delete_port c u w = Some (r, w') \<Longrightarrow> nodes w' = nodes w"
  by (auto simp: delete_port_def andthen_def ret_def
      split: option.splits res.splits prod.splits dest: api_nodes)

lemma delete_server_nodes: "delete_server c u w = Some (r, w') \<Longrightarrow> nodes w' = nodes w"
  by (auto simp: delete_server_def andthen_def ret_def
      split: option.splits res.splits prod.splits dest: api_nodes)

lemma for_each_nodes:
  assumes "\<And>x w r w'. f x w = Some (r, w') \<Longrightarrow> nodes w' = nodes w"
  shows "for_each f xs w = Some (r, w') \<Longrightarrow> nodes w' = nodes w"
proof (induction xs arbitrary: w)
  case Nil
  then show ?case by (simp add: ret_def)
next
  case (Cons x xs)
  then show ?case
    by (auto simp: andthen_def split: option.splits res.splits prod.splits dest: assms)
qed

lemma update_node_eq:
  "update_node k f w = Some (r, w') \<longleftrightarrow>
     r = Ok () \<and> w' = w\<lparr>nodes := (nodes w)(k := map_option f (nodes w k))\<rparr>"
  by (auto simp: update_node_def ret_def)

subsection \<open>The floating IP of a node\<close>

lemma first_floating_ip_none:
  "(\<forall>q \<in> set ps. port_floating_ip q = None) \<Longrightarrow> first_floating_ip ps = None"
  by (induction ps) auto

lemma first_floating_ip_append:
  "(\<forall>q \<in> set ps. port_floating_ip q = None) \<Longrightarrow>
     first_floating_ip (ps @ qs) = first_floating_ip qs"
  by (induction ps) auto

text \<open>A \<open>clean()\<close> that returns leaves the node without ports.\<close>

lemma clean_ports:
  assumes "clean c k w = Some (Ok u, w')"
  shows "\<exists>nd. nodes w' k = Some nd \<and> ports nd = []"
proof -
  from assms obtain nd w1 w2 w3 w4 w5 where
    nd: "nodes w k = Some nd"
    and s1: "for_each (delete_floatingip c) (fip_ids nd) w = Some (Ok (), w1)"
    and s2: "update_node k (\<lambda>n. n\<lparr>fip_ids := []\<rparr>) w1 = Some (Ok (), w2)"
    and s3: "for_each (\<lambda>p. delete_port c (port_id p)) (ports nd) w2 = Some (Ok (), w3)"
    and s4: "update_node k (\<lambda>n. n\<lparr>ports := []\<rparr>) w3 = Some (Ok (), w4)"
    and s5: "delete_server c (server_id nd) w4 = Some (Ok (), w5)"
    and s6: "update_node k (\<lambda>n. n\<lparr>server_id := None\<rparr>) w5 = Some (Ok u, w')"
    by (auto simp: clean_def andthen_Ok_iff get_node_def ret_def throw_def split: option.splits)
  have n1: "nodes w1 = nodes w"
    using s1 by (rule for_each_nodes [rotated]) (rule delete_floatingip_nodes)
  have n3: "nodes w3 = nodes w2"
    using s3 by (rule for_each_nodes [rotated]) (rule delete_port_nodes)
  have n5: "nodes w5 = nodes w4"
    using s5 by (rule delete_server_nodes)
  show ?thesis
    using nd n1 n3 n5 s2 s4 s6 by (auto simp: update_node_eq)
qed

text \<open>
  Claim C8. The property \<open>floating_ip\<close> of a node is the floating IP of the first port
  of \<open>ports\<close> that carries one: ports without one in front of it are passed over. It is
  \<open>None\<close> when no port carries a floating IP, in particular when \<open>ports\<close> is empty, as it
  is in a node just constructed and in a node on which \<open>clean()\<close> has returned.
\<close>

theorem floating_ip_first_carrier:
  "(ports nd = ps @ p # qs \<and> (\<forall>q \<in> set ps. port_floating_ip q = None)
       \<and> port_floating_ip p = Some a
      \<longrightarrow> floating_ip nd = Some a)
   \<and> ((\<forall>q \<in> set (ports nd). port_floating_ip q = None) \<longrightarrow> floating_ip nd = None)
   \<and> (ports nd = [] \<longrightarrow> floating_ip nd = None)
   \<and> floating_ip (Node nm tmpl w kp ud) = None
   \<and> (clean c k w = Some (Ok u, w')
      \<longrightarrow> (\<exists>nd'. nodes w' k = Some nd' \<and> floating_ip nd' = None))"
proof (intro conjI impI)
  assume "ports nd = ps @ p # qs \<and> (\<forall>q \<in> set ps. port_floating_ip q = None)
    \<and> port_floating_ip p = Some a"
  then show "floating_ip nd = Some a"
    by (simp add: floating_ip_def first_floating_ip_append)
next
  assume "\<forall>q \<in> set (ports nd). port_floating_ip q = None"
  then show "floating_ip nd = None"
    by (simp add: floating_ip_def first_floating_ip_none)
next
  assume "ports nd = []"
  then show "floating_ip nd = None"
    by (simp add: floating_ip_def)
next
  show "floating_ip (Node nm tmpl w kp ud) = None"
    by (simp add: floating_ip_def Node_def)
next
  assume "clean c k w = Some (Ok u, w')"
  then obtain nd' where "nodes w' k = Some nd'" "ports nd' = []"
    using clean_ports by blast
  then show "\<exists>nd'. nodes w' k = Some nd' \<and> floating_ip nd' = None"
    by (auto simp: floating_ip_def)
qed

theorem floating_ip_first_carrier_witness:
  "floating_ip ((Node ''web_env1'' web_template (DeploymentRunner (Some ''env1'') None 0) None None)
      \<lparr>ports := [\<lparr>port_id = ''p0'', port_fixed_ip = ''10.0.0.2'', port_mac = ''m0'',
                   port_network_name = ''private'', port_floating_ip = None\<rparr>,
                 \<lparr>port_id = ''p1'', port_fixed_ip = ''10.0.1.2'', port_mac = ''m1'',
                   port_network_name = ''dmz'', port_floating_ip = Some ''172.24.4.3''\<rparr>,
                 \<lparr>port_id = ''p2'', port_fixed_ip = ''10.0.2.2'', port_mac = ''m2'',
                   port_network_name = ''mgmt'', port_floating_ip = Some ''172.24.4.9''\<rparr>]\<rparr>)
     = Some ''172.24.4.3''
   \<and> floating_ip ((Node ''web_env1'' web_template (DeploymentRunner (Some ''env1'') None 0) None None)
      \<lparr>ports := [\<lparr>port_id = ''p0'', port_fixed_ip = ''10.0.0.2'', port_mac = ''m0'',
                   port_network_name = ''private'', port_floating_ip = None\<rparr>]\<rparr>) = None
   \<and> floating_ip ((Node ''web_env1'' web_template (DeploymentRunner (Some ''env1'') None 0) None None)
      \<lparr>ports := []\<rparr>) = None
   \<and> (\<exists>w1 w2. create_node (steady_cloud ''ERROR'') ''web'' web_template None None
                  (DeploymentRunner (Some ''env1'') None 1) = Some (Ok (Some ''web''), w1)
        \<and> clean (steady_cloud ''ERROR'') ''web'' w1 = Some (Ok (), w2)
        \<and> (\<exists>nd'. nodes w2 ''web'' = Some nd' \<and> floating_ip nd' = None))"
proof -
  let ?n = "Node ''web_env1'' web_template (DeploymentRunner (Some ''env1'') None 0) None None"
  let ?p0 = "\<lparr>port_id = ''p0'', port_fixed_ip = ''10.0.0.2'', port_mac = ''m0'',
                   port_network_name = ''private'', port_floating_ip = None\<rparr>"
  let ?p1 = "\<lparr>port_id = ''p1'', port_fixed_ip = ''10.0.1.2'', port_mac = ''m1'',
                   port_network_name = ''dmz'', port_floating_ip = Some ''172.24.4.3''\<rparr>"
  let ?p2 = "\<lparr>port_id = ''p2'', port_fixed_ip = ''10.0.2.2'', port_mac = ''m2'',
                   port_network_name = ''mgmt'', port_floating_ip = Some ''172.24.4.9''\<rparr>"
  have a: "floating_ip (?n\<lparr>ports := [?p0, ?p1, ?p2]\<rparr>) = Some ''172.24.4.3''"
    using floating_ip_first_carrier [of "?n\<lparr>ports := [?p0, ?p1, ?p2]\<rparr>" "[?p0]" ?p1 "[?p2]" "''172.24.4.3''"]
    by simp
  have b: "floating_ip (?n\<lparr>ports := [?p0]\<rparr>) = None"
    using floating_ip_first_carrier [of "?n\<lparr>ports := [?p0]\<rparr>"] by simp
  have c: "floating_ip (?n\<lparr>ports := []\<rparr>) = None"
    using floating_ip_first_carrier [of "?n\<lparr>ports := []\<rparr>"] by simp
  obtain w1 where w1: "create_node (steady_cloud ''ERROR'') ''web'' web_template None None
                  (DeploymentRunner (Some ''env1'') None 1) = Some (Ok (Some ''web''), w1)"
    by (simp add: eval_defs)
  have "\<exists>w2. clean (steady_cloud ''ERROR'') ''web'' w1 = Some (Ok (), w2)"
    using w1 by (auto simp: eval_defs)
  then obtain w2 where w2: "clean (steady_cloud ''ERROR'') ''web'' w1 = Some (Ok (), w2)" ..
  have d: "\<exists>nd'. nodes w2 ''web'' = Some nd' \<and> floating_ip nd' = None"
    using floating_ip_first_carrier [where c = "steady_cloud ''ERROR''" and k = "''web''" and w = w1
        and u = "()" and w' = w2] w2
    by blast
  show ?thesis using a b c d w1 w2 by blast
qed

lemma api_no_raise:
  "raises c (tick w) call = None \<Longrightarrow>
     api c call w = Some (Ok (tick w), w\<lparr>tick := Suc (tick w), calls := calls w @ [call]\<rparr>)"
  by (simp add: api_def Let_def)

lemma api_raise:
  "raises c (tick w) call = Some e \<Longrightarrow>
     api c call w = Some (Raise e, w\<lparr>tick := Suc (tick w), calls := calls w @ [call]\<rparr>)"
  by (simp add: api_def Let_def)

lemma api_cleanup_file: "api c call w = Some (r, w') \<Longrightarrow> cleanup_file w' = cleanup_file w"
  by (auto simp: api_def Let_def split: option.splits)

subsection \<open>Key pairs\<close>

text \<open>
  Claim C9. When the cloud answers \<open>keypairs.create\<close> with a conflict, \<open>create_keypair\<close>
  returns normally, having made that one call. However it ends, it leaves the cleanup
  file as it was: the ledger entry of a key pair is written by \<open>provision_step\<close>.
\<close>

theorem create_keypair_swallows_conflict:
  "(raises c (tick w) (Keypairs_create nm keydata) = Some (NovaConflict e)
      \<longrightarrow> create_keypair c nm keydata w
            = Some (Ok (), w\<lparr>tick := Suc (tick w), calls := calls w @ [Keypairs_create nm keydata]\<rparr>))
   \<and> (\<forall>r w'. create_keypair c nm keydata w = Some (r, w') \<longrightarrow> cleanup_file w' = cleanup_file w)"
proof (intro conjI impI allI)
  assume "raises c (tick w) (Keypairs_create nm keydata) = Some (NovaConflict e)"
  then show "create_keypair c nm keydata w
      = Some (Ok (), w\<lparr>tick := Suc (tick w), calls := calls w @ [Keypairs_create nm keydata]\<rparr>)"
    by (simp add: create_keypair_def api_raise)
next
  fix r w'
  assume "create_keypair c nm keydata w = Some (r, w')"
  then show "cleanup_file w' = cleanup_file w"
    by (auto simp: create_keypair_def split: option.splits prod.splits res.splits exn.splits
        dest: api_cleanup_file)
qed

theorem create_keypair_swallows_conflict_witness:
  "create_keypair
      ((steady_cloud ''ACTIVE'')\<lparr>raises := (\<lambda>t call. if call = Keypairs_create ''pubkey_env1'' ''ssh-rsa AAAA''
                                                then Some (NovaConflict ''Key pair already exists'') else None)\<rparr>)
      ''pubkey_env1'' ''ssh-rsa AAAA''
      ((DeploymentRunner (Some ''env1'') (Some ''ssh-rsa AAAA'') 0)\<lparr>runner_record_resource := Cleanup_file\<rparr>)
    = Some (Ok (), (DeploymentRunner (Some ''env1'') (Some ''ssh-rsa AAAA'') 0)
         \<lparr>runner_record_resource := Cleanup_file, tick := 1,
           calls := [Keypairs_create ''pubkey_env1'' ''ssh-rsa AAAA'']\<rparr>)
   \<and> cleanup_file ((DeploymentRunner (Some ''env1'') (Some ''ssh-rsa AAAA'') 0)
         \<lparr>runner_record_resource := Cleanup_file, tick := 1,
           calls := [Keypairs_create ''pubkey_env1'' ''ssh-rsa AAAA'']\<rparr>) = []"
  using create_keypair_swallows_conflict
    [where c = "(steady_cloud ''ACTIVE'')\<lparr>raises := (\<lambda>t call. if call = Keypairs_create ''pubkey_env1'' ''ssh-rsa AAAA''
                                                then Some (NovaConflict ''Key pair already exists'') else None)\<rparr>"
       and nm = "''pubkey_env1''" and keydata = "''ssh-rsa AAAA''" and e = "''Key pair already exists''"
       and w = "(DeploymentRunner (Some ''env1'') (Some ''ssh-rsa AAAA'') 0)\<lparr>runner_record_resource := Cleanup_file\<rparr>"]
  by (simp add: DeploymentRunner_def steady_cloud_def)

subsection \<open>Security groups\<close>

lemma record_resource_eq:
  "record_resource rt i w =
     Some (Ok (), w\<lparr>cleanup_file :=
       (case runner_record_resource w of
          Discard \<Rightarrow> cleanup_file w
        | Cleanup_file \<Rightarrow> cleanup_file w @ rt @ '': '' @ i @ [CHR 0x0A])\<rparr>)"
  by (simp add: record_resource_def write_sink_def split: sink.splits)

lemma rule_body_keys:
  assumes "rule_from_port r \<noteq> None" "rule_to_port r \<noteq> None" "rule_protocol r \<noteq> None"
    and "rule_source_group r \<noteq> None \<or> rule_cidr r \<noteq> None"
  shows "\<exists>b. rule_body table gid r = Inr b"
  using assms by (auto simp: rule_body_def split: option.splits)

lemma rule_body_source_group:
  assumes "rule_body table gid r = Inr b" and "rule_source_group r = Some g"
  shows "remote_group_id b = Some (case table g of Some i \<Rightarrow> i | None \<Rightarrow> g)
         \<and> remote_ip_prefix b = None"
  using assms by (auto simp: rule_body_def split: option.splits)

lemma create_rules_calls:
  assumes quiet: "\<forall>t call. raises c t call = None"
    and keys: "\<forall>r \<in> set rs. \<exists>b. rule_body (secgroups w) gid r = Inr b"
  shows "\<exists>w'. create_rules c gid rs w = Some (Ok (), w')
           \<and> calls w' = calls w
                @ map (\<lambda>r. Create_security_group_rule (projr (rule_body (secgroups w) gid r))) rs"
  using keys
proof (induction rs arbitrary: w)
  case Nil
  then show ?case by (simp add: ret_def)
next
  case (Cons r rs)
  then obtain b where b: "rule_body (secgroups w) gid r = Inr b" by auto
  let ?w1 = "w\<lparr>tick := Suc (tick w), calls := calls w @ [Create_security_group_rule b]\<rparr>"
  obtain F where F: "record_resource ''secgroup_rule'' (new_id c (tick w)) ?w1
      = Some (Ok (), ?w1\<lparr>cleanup_file := F\<rparr>)"
    using record_resource_eq by blast
  let ?w2 = "?w1\<lparr>cleanup_file := F\<rparr>"
  have sg: "secgroups ?w2 = secgroups w" by simp
  have "\<forall>r \<in> set rs. \<exists>b. rule_body (secgroups ?w2) gid r = Inr b"
    using Cons.prems by simp
  from Cons.IH [OF this] obtain w' where
    w': "create_rules c gid rs ?w2 = Some (Ok (), w')"
    and cs: "calls w' = calls ?w2
      @ map (\<lambda>r. Create_security_group_rule (projr (rule_body (secgroups ?w2) gid r))) rs"
    by blast
  have "create_rules c gid (r # rs) w = Some (Ok (), w')"
    using b quiet F w' by (simp add: andthen_def api_def Let_def)
  moreover have "calls w' = calls w
      @ map (\<lambda>r. Create_security_group_rule (projr (rule_body (secgroups w) gid r))) (r # rs)"
    using cs b by simp
  ultimately show ?case by blast
qed

text \<open>
  Claim C7. In a run of \<open>create_security_group\<close> in which no call raises and every rule
  has its keys, one rule request is sent per rule, in the order of the rules, after the
  request that creates the group. For a rule with a \<open>source_group\<close>, the request's
  \<open>remote_group_id\<close> is the id the naming table holds for that name (the table as it
  stands once the group itself has been entered), and the name itself when the table
  has no entry for it; the call does not fail.
\<close>

theorem source_group_fallback:
  assumes "\<forall>t call. raises c t call = None"
    and "\<forall>r \<in> set rs. rule_from_port r \<noteq> None \<and> rule_to_port r \<noteq> None
           \<and> rule_protocol r \<noteq> None \<and> (rule_source_group r \<noteq> None \<or> rule_cidr r \<noteq> None)"
  shows "\<exists>w' bodies.
           create_security_group c base_name (Some rs) w = Some (Ok (), w')
           \<and> calls w' = calls w @ Create_security_group (add_suffix w base_name)
                                  # map Create_security_group_rule bodies
           \<and> length bodies = length rs
           \<and> (\<forall>i < length rs. \<forall>g. rule_source_group (rs ! i) = Some g \<longrightarrow>
                 (((secgroups w)(base_name \<mapsto> new_id c (tick w))) g = None
                    \<longrightarrow> remote_group_id (bodies ! i) = Some g)
               \<and> (\<forall>x. ((secgroups w)(base_name \<mapsto> new_id c (tick w))) g = Some x
                    \<longrightarrow> remote_group_id (bodies ! i) = Some x))"
proof -
  let ?gid = "new_id c (tick w)"
  let ?T = "(secgroups w)(base_name \<mapsto> ?gid)"
  let ?w1 = "w\<lparr>tick := Suc (tick w),
                calls := calls w @ [Create_security_group (add_suffix w base_name)]\<rparr>"
  obtain F where F: "record_resource ''secgroup'' ?gid ?w1 = Some (Ok (), ?w1\<lparr>cleanup_file := F\<rparr>)"
    using record_resource_eq by blast
  let ?w3 = "?w1\<lparr>cleanup_file := F, secgroups := ?T\<rparr>"
  have T: "secgroups ?w3 = ?T" by simp
  have keysT: "\<exists>b. rule_body ?T ?gid r = Inr b" if "r \<in> set rs" for r
    using assms(2) that by (intro rule_body_keys) auto
  have keys: "\<forall>r \<in> set rs. \<exists>b. rule_body (secgroups ?w3) ?gid r = Inr b"
    unfolding T using keysT by blast
  from create_rules_calls [OF assms(1) keys] obtain w' where
    w': "create_rules c ?gid rs ?w3 = Some (Ok (), w')"
    and cs: "calls w' = calls ?w3
       @ map (\<lambda>r. Create_security_group_rule (projr (rule_body (secgroups ?w3) ?gid r))) rs"
    by blast
  let ?bodies = "map (\<lambda>r. projr (rule_body ?T ?gid r)) rs"
  have a1: "api c (Create_security_group (add_suffix w base_name)) w = Some (Ok (tick w), ?w1)"
    using assms(1) by (simp add: api_def Let_def)
  have run: "create_security_group c base_name (Some rs) w = Some (Ok (), w')"
    unfolding create_security_group_def andthen_def a1
    using F w' by (simp add: ret_def)
  have log: "calls w' = calls w @ Create_security_group (add_suffix w base_name)
                                  # map Create_security_group_rule ?bodies"
    unfolding cs T by (simp add: comp_def)
  have each: "remote_group_id (?bodies ! i) = Some (case ?T g of Some x \<Rightarrow> x | None \<Rightarrow> g)"
    if "i < length rs" "rule_source_group (rs ! i) = Some g" for i g
  proof -
    from keysT [OF nth_mem [OF that(1)]] obtain b where b: "rule_body ?T ?gid (rs ! i) = Inr b"
      by blast
    from rule_body_source_group [OF b that(2)] have "remote_group_id b
        = Some (case ?T g of Some x \<Rightarrow> x | None \<Rightarrow> g)" by blast
    moreover have "?bodies ! i = b" using that(1) b by simp
    ultimately show ?thesis by (simp only:)
  qed
  have main: "\<forall>i < length rs. \<forall>g. rule_source_group (rs ! i) = Some g \<longrightarrow>
                 (?T g = None \<longrightarrow> remote_group_id (?bodies ! i) = Some g)
               \<and> (\<forall>x. ?T g = Some x \<longrightarrow> remote_group_id (?bodies ! i) = Some x)"
  proof (intro allI impI conjI)
    fix i g assume "i < length rs" "rule_source_group (rs ! i) = Some g" "?T g = None"
    with each [of i g] show "remote_group_id (?bodies ! i) = Some g" by (simp only: option.case)
  next
    fix i g x assume "i < length rs" "rule_source_group (rs ! i) = Some g" "?T g = Some x"
    with each [of i g] show "remote_group_id (?bodies ! i) = Some x" by (simp only: option.case)
  qed
  have len: "length ?bodies = length rs" by simp
  from run log len main show ?thesis
    by (intro exI [of _ w'] exI [of _ ?bodies] conjI)
qed

theorem source_group_fallback_witness:
  "\<exists>w' bodies.
     create_security_group (steady_cloud ''ACTIVE'') ''web''
       (Some [\<lparr>rule_from_port = Some 5432, rule_to_port = Some 5432, rule_protocol = Some ''tcp'',
                rule_source_group = Some ''db'', rule_cidr = None\<rparr>,
              \<lparr>rule_from_port = Some 22, rule_to_port = Some 22, rule_protocol = Some ''tcp'',
                rule_source_group = Some ''bastion'', rule_cidr = None\<rparr>,
              \<lparr>rule_from_port = Some 80, rule_to_port = Some 80, rule_protocol = Some ''tcp'',
                rule_source_group = None, rule_cidr = Some ''0.0.0.0/0''\<rparr>])
       ((DeploymentRunner (Some ''env1'') None 0)\<lparr>secgroups := [''db'' \<mapsto> ''sg-db'']\<rparr>)
       = Some (Ok (), w')
     \<and> calls w' = Create_security_group ''web_env1'' # map Create_security_group_rule bodies
     \<and> length bodies = 3
     \<and> remote_group_id (bodies ! 0) = Some ''sg-db''
     \<and> remote_group_id (bodies ! 1) = Some ''bastion''"
proof -
  let ?c = "steady_cloud ''ACTIVE''"
  let ?rs = "[\<lparr>rule_from_port = Some 5432, rule_to_port = Some 5432, rule_protocol = Some ''tcp'',
                rule_source_group = Some ''db'', rule_cidr = None\<rparr>,
              \<lparr>rule_from_port = Some 22, rule_to_port = Some 22, rule_protocol = Some ''tcp'',
                rule_source_group = Some ''bastion'', rule_cidr = None\<rparr>,
              \<lparr>rule_from_port = Some 80, rule_to_port = Some 80, rule_protocol = Some ''tcp'',
                rule_source_group = None, rule_cidr = Some ''0.0.0.0/0''\<rparr>]"
  let ?w = "(DeploymentRunner (Some ''env1'') None 0)\<lparr>secgroups := [''db'' \<mapsto> ''sg-db'']\<rparr>"
  have quiet: "\<forall>t call. raises ?c t call = None"
    by (simp add: steady_cloud_def)
  have keys: "\<forall>r \<in> set ?rs. rule_from_port r \<noteq> None \<and> rule_to_port r \<noteq> None
           \<and> rule_protocol r \<noteq> None \<and> (rule_source_group r \<noteq> None \<or> rule_cidr r \<noteq> None)"
    by simp
  from source_group_fallback [OF quiet keys, of "''web''" ?w]
  obtain w' bodies where
    run: "create_security_group ?c ''web'' (Some ?rs) ?w = Some (Ok (), w')"
    and log: "calls w' = calls ?w @ Create_security_group (add_suffix ?w ''web'')
                                  # map Create_security_group_rule bodies"
    and len: "length bodies = length ?rs"
    and each: "\<forall>i < length ?rs. \<forall>g. rule_source_group (?rs ! i) = Some g \<longrightarrow>
                 (((secgroups ?w)(''web'' \<mapsto> new_id ?c (tick ?w))) g = None
                    \<longrightarrow> remote_group_id (bodies ! i) = Some g)
               \<and> (\<forall>x. ((secgroups ?w)(''web'' \<mapsto> new_id ?c (tick ?w))) g = Some x
                    \<longrightarrow> remote_group_id (bodies ! i) = Some x)"
    by blast
  have b0: "remote_group_id (bodies ! 0) = Some ''sg-db''"
    using each [rule_format, of 0 "''db''", THEN conjunct2, rule_format, of "''sg-db''"]
    by (simp add: DeploymentRunner_def)
  have b1: "remote_group_id (bodies ! 1) = Some ''bastion''"
    using each [rule_format, of 1 "''bastion''", THEN conjunct1]
    by (simp add: DeploymentRunner_def)
  have log': "calls w' = Create_security_group ''web_env1'' # map Create_security_group_rule bodies"
    using log by (simp add: DeploymentRunner_def add_suffix_def)
  from run log' len b0 b1 show ?thesis by auto
qed

subsection \<open>Deleting a subnet\<close>

lemma detach_router_ports_run:
  assumes "\<forall>t d. raises c t (Remove_interface_router d uuid) = None"
  shows "detach_router_ports c uuid ps found w =
     Some (Ok (found \<or> filter (\<lambda>p. uuid \<in> set (rp_fixed_ip_subnets p)) ps \<noteq> []),
           w\<lparr>tick := tick w + length (filter (\<lambda>p. uuid \<in> set (rp_fixed_ip_subnets p)) ps),
             calls := calls w @ map (\<lambda>p. Remove_interface_router (rp_device_id p) uuid)
                                  (filter (\<lambda>p. uuid \<in> set (rp_fixed_ip_subnets p)) ps)\<rparr>)"
proof (induction ps arbitrary: w found)
  case Nil
  then show ?case by (simp add: ret_def)
next
  case (Cons p ps)
  show ?case
  proof (cases "uuid \<in> set (rp_fixed_ip_subnets p)")
    case True
    then show ?thesis
      using assms by (simp add: andthen_def api_def Let_def Cons.IH)
  next
    case False
    then show ?thesis by (simp add: Cons.IH)
  qed
qed

text \<open>
  Claim C5. When the first \<open>delete_subnet\<close> call on the cloud raises a conflict, the
  router-interface ports are listed and those with a fixed IP in the subnet are the ones
  detached. If there is none, the conflict itself is raised again and nothing else is
  called. If there are some (and listing and detaching do not raise), each is detached
  and the subnet deletion is called once more, exactly once; its outcome is the outcome
  of \<open>delete_subnet\<close>.
\<close>

theorem delete_subnet_conflict:
  assumes "raises c (tick w) (Delete_subnet uuid) = Some (NeutronConflict e)"
    and "raises c (Suc (tick w)) List_ports_router_interface = None"
    and "\<forall>t d. raises c t (Remove_interface_router d uuid) = None"
    and "attached = filter (\<lambda>p. uuid \<in> set (rp_fixed_ip_subnets p))
                      (router_interface_ports c (Suc (tick w)))"
  shows "(attached = [] \<longrightarrow>
            (\<exists>w'. delete_subnet c uuid w = Some (Raise (NeutronConflict e), w')
                 \<and> calls w' = calls w @ [Delete_subnet uuid, List_ports_router_interface]))
       \<and> (attached \<noteq> [] \<longrightarrow>
            (\<exists>w'. delete_subnet c uuid w
                    = Some ((case raises c (tick w + 2 + length attached) (Delete_subnet uuid) of
                               None \<Rightarrow> Ok ()
                             | Some e' \<Rightarrow> Raise e'), w')
                 \<and> calls w' = calls w @ [Delete_subnet uuid, List_ports_router_interface]
                      @ map (\<lambda>p. Remove_interface_router (rp_device_id p) uuid) attached
                      @ [Delete_subnet uuid]))"
proof -
  let ?w1 = "w\<lparr>tick := Suc (tick w), calls := calls w @ [Delete_subnet uuid]\<rparr>"
  let ?w2 = "?w1\<lparr>tick := Suc (tick ?w1), calls := calls ?w1 @ [List_ports_router_interface]\<rparr>"
  have a1: "api c (Delete_subnet uuid) w = Some (Raise (NeutronConflict e), ?w1)"
    using assms(1) by (simp add: api_def Let_def)
  have a2: "api c List_ports_router_interface ?w1 = Some (Ok (Suc (tick w)), ?w2)"
    using assms(2) by (simp add: api_def Let_def)
  have d: "detach_router_ports c uuid (router_interface_ports c (Suc (tick w))) False ?w2 =
     Some (Ok (attached \<noteq> []),
           ?w2\<lparr>tick := tick ?w2 + length attached,
                calls := calls ?w2 @ map (\<lambda>p. Remove_interface_router (rp_device_id p) uuid) attached\<rparr>)"
    unfolding assms(4) using detach_router_ports_run [OF assms(3)] by simp
  show ?thesis
  proof (intro conjI impI)
    assume "attached = []"
    then show "\<exists>w'. delete_subnet c uuid w = Some (Raise (NeutronConflict e), w')
                 \<and> calls w' = calls w @ [Delete_subnet uuid, List_ports_router_interface]"
      using a1 a2 d by (simp add: delete_subnet_def andthen_def throw_def)
  next
    assume "attached \<noteq> []"
    then show "\<exists>w'. delete_subnet c uuid w
                    = Some ((case raises c (tick w + 2 + length attached) (Delete_subnet uuid) of
                               None \<Rightarrow> Ok ()
                             | Some e' \<Rightarrow> Raise e'), w')
                 \<and> calls w' = calls w @ [Delete_subnet uuid, List_ports_router_interface]
                      @ map (\<lambda>p. Remove_interface_router (rp_device_id p) uuid) attached
                      @ [Delete_subnet uuid]"
      using a1 a2 d
      by (simp add: delete_subnet_def andthen_def ret_def api_def Let_def split: option.splits)
  qed
qed

theorem delete_subnet_conflict_witness:
  "(\<exists>w'. delete_subnet
            ((steady_cloud ''ACTIVE'')\<lparr>raises := (\<lambda>t call. if t = 0 \<and> call = Delete_subnet ''s1'' then Some (NeutronConflict ''in use'') else None),
               router_interface_ports := (\<lambda>t. [\<lparr>rp_device_id = ''r1'', rp_fixed_ip_subnets = [''s9'']\<rparr>])\<rparr>)
            ''s1'' (DeploymentRunner None None 0)
          = Some (Raise (NeutronConflict ''in use''), w')
        \<and> calls w' = [Delete_subnet ''s1'', List_ports_router_interface])
   \<and> (\<exists>w'. delete_subnet
            ((steady_cloud ''ACTIVE'')\<lparr>raises := (\<lambda>t call. if t = 0 \<and> call = Delete_subnet ''s1'' then Some (NeutronConflict ''in use'') else None),
               router_interface_ports := (\<lambda>t. [\<lparr>rp_device_id = ''r1'', rp_fixed_ip_subnets = [''s9'']\<rparr>,
                                               \<lparr>rp_device_id = ''r2'', rp_fixed_ip_subnets = [''s0'', ''s1'']\<rparr>])\<rparr>)
            ''s1'' (DeploymentRunner None None 0)
          = Some (Ok (), w')
        \<and> calls w' = [Delete_subnet ''s1'', List_ports_router_interface,
                      Remove_interface_router ''r2'' ''s1'', Delete_subnet ''s1''])"
proof -
  let ?r = "\<lambda>(t::nat) (call::api_call). if t = 0 \<and> call = Delete_subnet ''s1'' then Some (NeutronConflict ''in use'') else None"
  let ?c1 = "(steady_cloud ''ACTIVE'')\<lparr>raises := ?r,
               router_interface_ports := (\<lambda>t. [\<lparr>rp_device_id = ''r1'', rp_fixed_ip_subnets = [''s9'']\<rparr>])\<rparr>"
  let ?c2 = "(steady_cloud ''ACTIVE'')\<lparr>raises := ?r,
               router_interface_ports := (\<lambda>t. [\<lparr>rp_device_id = ''r1'', rp_fixed_ip_subnets = [''s9'']\<rparr>,
                                               \<lparr>rp_device_id = ''r2'', rp_fixed_ip_subnets = [''s0'', ''s1'']\<rparr>])\<rparr>"
  let ?w = "DeploymentRunner None None 0"
  have "\<exists>w'. delete_subnet ?c1 ''s1'' ?w = Some (Raise (NeutronConflict ''in use''), w')
        \<and> calls w' = calls ?w @ [Delete_subnet ''s1'', List_ports_router_interface]"
    using delete_subnet_conflict [of ?c1 ?w "''s1''" "''in use''" "[]"]
    by (simp add: DeploymentRunner_def)
  moreover have "\<exists>w'. delete_subnet ?c2 ''s1'' ?w = Some (Ok (), w')
        \<and> calls w' = calls ?w @ [Delete_subnet ''s1'', List_ports_router_interface]
              @ map (\<lambda>p. Remove_interface_router (rp_device_id p) ''s1'')
                  [\<lparr>rp_device_id = ''r2'', rp_fixed_ip_subnets = [''s0'', ''s1'']\<rparr>]
              @ [Delete_subnet ''s1'']"
    using delete_subnet_conflict [of ?c2 ?w "''s1''" "''in use''"
        "[\<lparr>rp_device_id = ''r2'', rp_fixed_ip_subnets = [''s0'', ''s1'']\<rparr>]"]
    by (simp add: DeploymentRunner_def)
  ultimately show ?thesis by (simp add: DeploymentRunner_def)
qed

subsection \<open>Cleanup\<close>





















subsection \<open>Reconciliation\<close>




lemma strip_suffix_restores: "endswith s sfx \<Longrightarrow> strip_suffix sfx s @ sfx = s"
  by (auto simp: endswith_def strip_suffix_def) (metis append_take_drop_id)

lemma strip_suffix_inj:
  "endswith s sfx \<Longrightarrow> endswith s' sfx \<Longrightarrow> strip_suffix sfx s = strip_suffix sfx s' \<Longrightarrow> s = s'"
  by (metis strip_suffix_restores)

lemma base_names_Cons:
  "base_names sfx (n # ns) =
     (if endswith n sfx then strip_suffix sfx n # base_names sfx ns else base_names sfx ns)"
  by (simp add: base_names_def)

lemma base_names_Nil: "base_names sfx [] = []"
  by (simp add: base_names_def)


lemma detect_networks_ok:
  assumes "distinct (base_names sfx (map net_name nets))"
    and "set (base_names sfx (map net_name nets)) \<inter> dom (networks w) = {}"
  shows "\<exists>nbi'. detect_networks sfx nets nbi w
            = Some (Ok nbi', w\<lparr>networks := networks w ++
                 map_of (map (\<lambda>n. (strip_suffix sfx (net_name n), net_id n))
                           (filter (\<lambda>n. endswith (net_name n) sfx) nets))\<rparr>)"
  using assms
proof (induction nets arbitrary: nbi w)
  case Nil
  then show ?case by (simp add: ret_def)
next
  case (Cons n nets)
  show ?case
  proof (cases "endswith (net_name n) sfx")
    case False
    with Cons show ?thesis by (simp add: base_names_Cons)
  next
    case True
    let ?b = "strip_suffix sfx (net_name n)"
    let ?w = "w\<lparr>networks := (networks w)(?b \<mapsto> net_id n)\<rparr>"
    let ?rest = "map (\<lambda>n. (strip_suffix sfx (net_name n), net_id n))
                           (filter (\<lambda>n. endswith (net_name n) sfx) nets)"
    from Cons.prems True have nb: "?b \<notin> dom (networks w)"
      and fresh: "?b \<notin> set (base_names sfx (map net_name nets))"
      and d: "distinct (base_names sfx (map net_name nets))"
      and disj: "set (base_names sfx (map net_name nets)) \<inter> dom (networks ?w) = {}"
      by (auto simp: base_names_Cons)
    from Cons.IH [OF d disj] obtain nbi' where
      run: "detect_networks sfx nets (nbi(net_id n \<mapsto> ?b)) ?w
          = Some (Ok nbi', ?w\<lparr>networks := networks ?w ++ map_of ?rest\<rparr>)"
      by blast
    have keys: "fst ` set ?rest = set (base_names sfx (map net_name nets))"
      by (auto simp: base_names_def filter_map comp_def image_iff)
    have "map_of ?rest ?b = None"
      using fresh keys by (simp add: map_of_eq_None_iff)
    then have eq: "(networks w)(?b \<mapsto> net_id n) ++ map_of ?rest
        = networks w ++ map_of ((?b, net_id n) # ?rest)"
      by (intro ext) (auto simp: map_add_def split: option.splits)
    have step: "detect_networks sfx (n # nets) nbi w
        = detect_networks sfx nets (nbi(net_id n \<mapsto> ?b)) ?w"
      using True nb by simp
    have flt: "map (\<lambda>n. (strip_suffix sfx (net_name n), net_id n))
                 (filter (\<lambda>n. endswith (net_name n) sfx) (n # nets)) = (?b, net_id n) # ?rest"
      using True by simp
    have "?w\<lparr>networks := networks ?w ++ map_of ?rest\<rparr>
        = w\<lparr>networks := networks w ++ map_of ((?b, net_id n) # ?rest)\<rparr>"
      using eq by simp
    with run show ?thesis unfolding step flt by (intro exI [of _ nbi']) (simp only:)
  qed
qed


lemma detect_secgroups_ok:
  assumes "distinct (base_names sfx (map sg_name sgs))"
    and "set (base_names sfx (map sg_name sgs)) \<inter> dom (secgroups w) = {}"
  shows "detect_secgroups sfx sgs w
            = Some (Ok (), w\<lparr>secgroups := secgroups w ++
                 map_of (map (\<lambda>g. (strip_suffix sfx (sg_name g), sg_id g))
                           (filter (\<lambda>g. endswith (sg_name g) sfx) sgs))\<rparr>)"
  using assms
proof (induction sgs arbitrary: w)
  case Nil
  then show ?case by (simp add: ret_def)
next
  case (Cons g sgs)
  show ?case
  proof (cases "endswith (sg_name g) sfx")
    case False
    with Cons show ?thesis by (simp add: base_names_Cons)
  next
    case True
    let ?b = "strip_suffix sfx (sg_name g)"
    let ?w = "w\<lparr>secgroups := (secgroups w)(?b \<mapsto> sg_id g)\<rparr>"
    let ?rest = "map (\<lambda>g. (strip_suffix sfx (sg_name g), sg_id g))
                           (filter (\<lambda>g. endswith (sg_name g) sfx) sgs)"
    from Cons.prems True have nb: "?b \<notin> dom (secgroups w)"
      and fresh: "?b \<notin> set (base_names sfx (map sg_name sgs))"
      and d: "distinct (base_names sfx (map sg_name sgs))"
      and disj: "set (base_names sfx (map sg_name sgs)) \<inter> dom (secgroups ?w) = {}"
      by (auto simp: base_names_Cons)
    from Cons.IH [OF d disj] have
      run: "detect_secgroups sfx sgs ?w
          = Some (Ok (), ?w\<lparr>secgroups := secgroups ?w ++ map_of ?rest\<rparr>)" .
    have keys: "fst ` set ?rest = set (base_names sfx (map sg_name sgs))"
      by (auto simp: base_names_def filter_map comp_def image_iff)
    have "map_of ?rest ?b = None"
      using fresh keys by (simp add: map_of_eq_None_iff)
    then have eq: "(secgroups w)(?b \<mapsto> sg_id g) ++ map_of ?rest
        = secgroups w ++ map_of ((?b, sg_id g) # ?rest)"
      by (intro ext) (auto simp: map_add_def split: option.splits)
    have step: "detect_secgroups sfx (g # sgs) w = detect_secgroups sfx sgs ?w"
      using True nb by simp
    have flt: "map (\<lambda>g. (strip_suffix sfx (sg_name g), sg_id g))
                 (filter (\<lambda>g. endswith (sg_name g) sfx) (g # sgs)) = (?b, sg_id g) # ?rest"
      using True by simp
    have "?w\<lparr>secgroups := secgroups ?w ++ map_of ?rest\<rparr>
        = w\<lparr>secgroups := secgroups w ++ map_of ((?b, sg_id g) # ?rest)\<rparr>"
      using eq by simp
    with run show ?thesis unfolding step flt by (simp only:)
  qed
qed

lemma raw_ports_ok:
  assumes "\<forall>p \<in> set ps. lp_fixed_ips p \<noteq> []"
  shows "\<exists>raw. raw_ports nbi ps = Inr raw \<and> map port_id raw = map lp_id ps
           \<and> map port_mac raw = map lp_mac_address ps
           \<and> (\<forall>q \<in> set raw. port_floating_ip q = None)"
  using assms
proof (induction ps)
  case Nil
  then show ?case by simp
next
  case (Cons p ps)
  then obtain raw where "raw_ports nbi ps = Inr raw" "map port_id raw = map lp_id ps"
    "map port_mac raw = map lp_mac_address ps" "\<forall>q \<in> set raw. port_floating_ip q = None"
    by auto
  moreover from Cons.prems obtain ip ips where "lp_fixed_ips p = ip # ips"
    by (cases "lp_fixed_ips p") auto
  ultimately show ?case by simp
qed

lemma index_from_dom:
  "dom (index_from f i ps acc) = dom acc \<union> f ` set ps"
  by (induction ps arbitrary: i acc) auto

lemma index_from_bound:
  assumes "\<forall>k j. acc k = Some j \<longrightarrow> j < i"
  shows "index_from f i ps acc k = Some j \<Longrightarrow> j < i + length ps"
  using assms
proof (induction ps arbitrary: i acc)
  case Nil
  then show ?case by simp
next
  case (Cons p ps)
  have "\<forall>k j. (acc(f p \<mapsto> i)) k = Some j \<longrightarrow> j < Suc i"
    using Cons.prems(2) by (auto simp: less_Suc_eq)
  have "j < Suc i + length ps"
  proof (rule Cons.IH)
    show "index_from f (Suc i) ps (acc(f p \<mapsto> i)) k = Some j"
      using Cons.prems(1) by simp
    show "\<forall>k j. (acc(f p \<mapsto> i)) k = Some j \<longrightarrow> j < Suc i"
      by fact
  qed
  then show ?case by simp
qed

lemma attach_floatingips_ok:
  assumes "\<forall>fip \<in> set fips. \<forall>pid. fip_port_id fip = Some pid \<longrightarrow> pid \<noteq> [] \<longrightarrow> pid \<in> dom by_id"
  shows "\<exists>raw'. attach_floatingips by_id fips raw = Inr raw' \<and> length raw' = length raw
           \<and> map port_mac raw' = map port_mac raw"
  using assms
proof (induction fips arbitrary: raw)
  case Nil
  then show ?case by simp
next
  case (Cons fip fips)
  have rest: "\<forall>fip \<in> set fips. \<forall>pid. fip_port_id fip = Some pid \<longrightarrow> pid \<noteq> [] \<longrightarrow> pid \<in> dom by_id"
    using Cons.prems by simp
  show ?case
  proof (cases "fip_port_id fip")
    case None
    with Cons.IH [OF rest, of raw] show ?thesis by simp
  next
    case (Some pid)
    show ?thesis
    proof (cases "pid = []")
      case True
      with Some Cons.IH [OF rest, of raw] show ?thesis by simp
    next
      case False
      with Some Cons.prems obtain i where i: "by_id pid = Some i" by auto
      let ?raw = "raw[i := (raw ! i)\<lparr>port_floating_ip := Some (fip_floating_ip_address fip)\<rparr>]"
      from Cons.IH [OF rest, of ?raw] obtain raw' where
        "attach_floatingips by_id fips ?raw = Inr raw'" "length raw' = length ?raw"
        "map port_mac raw' = map port_mac ?raw"
        by blast
      moreover have "map port_mac ?raw = map port_mac raw"
        by (simp add: map_update) (metis list_update_id map_update port.select_convs(3) port.surjective port.update_convs(5))
      ultimately show ?thesis using Some False i by simp
    qed
  qed
qed

lemma append_ports_ok:
  assumes "\<forall>a \<in> set addrs. a \<noteq> [] \<and> hd a \<in> dom by_mac"
    and "N b = Some nd"
  shows "append_ports b by_mac raw addrs (w\<lparr>nodes := N\<rparr>)
           = Some (Ok (), w\<lparr>nodes := N(b \<mapsto> nd\<lparr>ports := ports nd
                                 @ map (\<lambda>a. raw ! the (by_mac (hd a))) addrs\<rparr>)\<rparr>)"
  using assms
proof (induction addrs arbitrary: N nd)
  case Nil
  then have "N(b \<mapsto> nd) = N" by (simp add: fun_upd_idem)
  then show ?case by (simp add: ret_def)
next
  case (Cons a addrs)
  from Cons.prems obtain m ms i where a: "a = m # ms" and i: "by_mac m = Some i"
    by (cases a) auto
  let ?nd = "nd\<lparr>ports := ports nd @ [raw ! i]\<rparr>"
  let ?N = "N(b \<mapsto> ?nd)"
  have rest: "\<forall>a \<in> set addrs. a \<noteq> [] \<and> hd a \<in> dom by_mac"
    using Cons.prems by simp
  have "?N b = Some ?nd" by simp
  from Cons.IH [of ?N ?nd, OF rest this]
  have ih: "append_ports b by_mac raw addrs (w\<lparr>nodes := ?N\<rparr>)
      = Some (Ok (), w\<lparr>nodes := ?N(b \<mapsto> ?nd\<lparr>ports := ports ?nd
                                 @ map (\<lambda>a. raw ! the (by_mac (hd a))) addrs\<rparr>)\<rparr>)" .
  have step: "append_ports b by_mac raw (a # addrs) (w\<lparr>nodes := N\<rparr>)
      = append_ports b by_mac raw addrs (w\<lparr>nodes := ?N\<rparr>)"
    using a i Cons.prems(2) by (simp add: andthen_def update_node_def ret_def)
  have fin: "?N(b \<mapsto> ?nd\<lparr>ports := ports ?nd @ map (\<lambda>a. raw ! the (by_mac (hd a))) addrs\<rparr>)
      = N(b \<mapsto> nd\<lparr>ports := ports nd @ map (\<lambda>a. raw ! the (by_mac (hd a))) (a # addrs)\<rparr>)"
    using a i by simp
  show ?case unfolding step ih fin by (rule refl)
qed

lemma Node_nodes_update [simp]: "Node nm tmpl (w\<lparr>nodes := N\<rparr>) kp ud = Node nm tmpl w kp ud"
  by (simp add: Node_def)

lemma detect_servers_dup:
  assumes "\<not> distinct (base_names sfx (map srv_name srvs))
           \<or> set (base_names sfx (map srv_name srvs)) \<inter> dom N \<noteq> {}"
    and "\<forall>s \<in> set srvs. \<forall>a \<in> set (srv_addresses s). a \<noteq> [] \<and> hd a \<in> dom by_mac"
  shows "\<exists>nm w'. detect_servers sfx by_mac raw srvs (w\<lparr>nodes := N\<rparr>)
            = Some (Raise (DuplicateResourceException ''Node'' nm), w')"
  using assms
proof (induction srvs arbitrary: N)
  case Nil
  then show ?case by (simp add: base_names_Nil)
next
  case (Cons s srvs)
  show ?case
  proof (cases "endswith (srv_name s) sfx")
    case False
    have "detect_servers sfx by_mac raw (s # srvs) (w\<lparr>nodes := N\<rparr>)
        = detect_servers sfx by_mac raw srvs (w\<lparr>nodes := N\<rparr>)"
      using False by simp
    moreover have "\<not> distinct (base_names sfx (map srv_name srvs))
           \<or> set (base_names sfx (map srv_name srvs)) \<inter> dom N \<noteq> {}"
      using Cons.prems(1) False by (simp add: base_names_Cons)
    moreover have "\<forall>s \<in> set srvs. \<forall>a \<in> set (srv_addresses s). a \<noteq> [] \<and> hd a \<in> dom by_mac"
      using Cons.prems(2) by simp
    ultimately show ?thesis using Cons.IH [of N] by simp
  next
    case True
    let ?b = "strip_suffix sfx (srv_name s)"
    show ?thesis
    proof (cases "N ?b")
      case (Some x)
      then have "detect_servers sfx by_mac raw (s # srvs) (w\<lparr>nodes := N\<rparr>)
          = Some (Raise (DuplicateResourceException ''Node'' (srv_name s)), w\<lparr>nodes := N\<rparr>)"
        using True by (simp add: throw_def dom_def)
      then show ?thesis by blast
    next
      case None
      let ?nd = "Node (srv_name s) empty_info w None None"
      let ?nd' = "?nd\<lparr>ports := ports ?nd
                      @ map (\<lambda>a. raw ! the (by_mac (hd a))) (srv_addresses s)\<rparr>"
      let ?N1 = "N(?b \<mapsto> ?nd)"
      let ?N2 = "N(?b \<mapsto> ?nd')"
      have oka: "\<forall>a \<in> set (srv_addresses s). a \<noteq> [] \<and> hd a \<in> dom by_mac"
        using Cons.prems(2) by simp
      have "?N1 ?b = Some ?nd" by simp
      from append_ports_ok [where N = ?N1 and nd = ?nd and raw = raw and w = w, OF oka this]
      have ap: "append_ports ?b by_mac raw (srv_addresses s) (w\<lparr>nodes := ?N1\<rparr>)
          = Some (Ok (), w\<lparr>nodes := ?N2\<rparr>)"
        by (simp only: fun_upd_upd)
      have step: "detect_servers sfx by_mac raw (s # srvs) (w\<lparr>nodes := N\<rparr>)
          = detect_servers sfx by_mac raw srvs (w\<lparr>nodes := ?N2\<rparr>)"
      proof -
        have "?b \<notin> dom (nodes (w\<lparr>nodes := N\<rparr>))" using None by (simp add: dom_def)
        moreover have "Node (srv_name s) empty_info (w\<lparr>nodes := N\<rparr>) None None = ?nd"
          by simp
        ultimately show ?thesis
          using True ap by (simp add: andthen_def del: fun_upd_apply)
      qed
      have d: "\<not> distinct (base_names sfx (map srv_name srvs))
           \<or> set (base_names sfx (map srv_name srvs)) \<inter> dom ?N2 \<noteq> {}"
      proof -
        have bn: "base_names sfx (map srv_name (s # srvs)) = ?b # base_names sfx (map srv_name srvs)"
          using True by (simp add: base_names_Cons)
        have dm: "dom ?N2 = insert ?b (dom N)" by simp
        from Cons.prems(1) None show ?thesis unfolding bn dm by (auto simp: dom_def)
      qed
      have ok: "\<forall>s \<in> set srvs. \<forall>a \<in> set (srv_addresses s). a \<noteq> [] \<and> hd a \<in> dom by_mac"
        using Cons.prems(2) by simp
      from Cons.IH [of ?N2, OF d ok] show ?thesis unfolding step .
    qed
  qed
qed

lemma detect_servers_ok:
  assumes "distinct (base_names sfx (map srv_name srvs))"
    and "set (base_names sfx (map srv_name srvs)) \<inter> dom N = {}"
    and "\<forall>s \<in> set srvs. \<forall>a \<in> set (srv_addresses s). a \<noteq> [] \<and> hd a \<in> dom by_mac"
  shows "detect_servers sfx by_mac raw srvs (w\<lparr>nodes := N\<rparr>)
            = Some (Ok (), w\<lparr>nodes := N ++
                 map_of (map (\<lambda>s. (strip_suffix sfx (srv_name s),
                                    (Node (srv_name s) empty_info w None None)
                                      \<lparr>ports := map (\<lambda>a. raw ! the (by_mac (hd a)))
                                                  (srv_addresses s)\<rparr>))
                           (filter (\<lambda>s. endswith (srv_name s) sfx) srvs))\<rparr>)"
  using assms
proof (induction srvs arbitrary: N)
  case Nil
  then show ?case by (simp add: ret_def)
next
  case (Cons s srvs)
  let ?entry = "\<lambda>s. (strip_suffix sfx (srv_name s),
                    (Node (srv_name s) empty_info w None None)
                      \<lparr>ports := map (\<lambda>a. raw ! the (by_mac (hd a))) (srv_addresses s)\<rparr>)"
  let ?rest = "map ?entry (filter (\<lambda>s. endswith (srv_name s) sfx) srvs)"
  have ok: "\<forall>s \<in> set srvs. \<forall>a \<in> set (srv_addresses s). a \<noteq> [] \<and> hd a \<in> dom by_mac"
    using Cons.prems(3) by simp
  show ?case
  proof (cases "endswith (srv_name s) sfx")
    case False
    have step: "detect_servers sfx by_mac raw (s # srvs) (w\<lparr>nodes := N\<rparr>)
        = detect_servers sfx by_mac raw srvs (w\<lparr>nodes := N\<rparr>)"
      using False by simp
    have flt: "map ?entry (filter (\<lambda>s. endswith (srv_name s) sfx) (s # srvs)) = ?rest"
      using False by simp
    have "distinct (base_names sfx (map srv_name srvs))"
      and "set (base_names sfx (map srv_name srvs)) \<inter> dom N = {}"
      using Cons.prems(1,2) False by (simp_all add: base_names_Cons)
    from Cons.IH [of N, OF this ok] show ?thesis unfolding step flt .
  next
    case True
    let ?b = "strip_suffix sfx (srv_name s)"
    let ?nd = "Node (srv_name s) empty_info w None None"
    let ?nd' = "?nd\<lparr>ports := ports ?nd
                      @ map (\<lambda>a. raw ! the (by_mac (hd a))) (srv_addresses s)\<rparr>"
    let ?N1 = "N(?b \<mapsto> ?nd)"
    let ?N2 = "N(?b \<mapsto> ?nd')"
    have bn: "base_names sfx (map srv_name (s # srvs)) = ?b # base_names sfx (map srv_name srvs)"
      using True by (simp add: base_names_Cons)
    from Cons.prems(1,2) have nb: "N ?b = None"
      and fresh: "?b \<notin> set (base_names sfx (map srv_name srvs))"
      and d: "distinct (base_names sfx (map srv_name srvs))"
      and disj0: "set (base_names sfx (map srv_name srvs)) \<inter> dom N = {}"
      unfolding bn by (auto simp: dom_def)
    have disj: "set (base_names sfx (map srv_name srvs)) \<inter> dom ?N2 = {}"
      using disj0 fresh by auto
    have oka: "\<forall>a \<in> set (srv_addresses s). a \<noteq> [] \<and> hd a \<in> dom by_mac"
      using Cons.prems(3) by simp
    have "?N1 ?b = Some ?nd" by simp
    from append_ports_ok [where N = ?N1 and nd = ?nd and raw = raw and w = w, OF oka this]
    have ap: "append_ports ?b by_mac raw (srv_addresses s) (w\<lparr>nodes := ?N1\<rparr>)
          = Some (Ok (), w\<lparr>nodes := ?N2\<rparr>)"
      by (simp only: fun_upd_upd)
    have step: "detect_servers sfx by_mac raw (s # srvs) (w\<lparr>nodes := N\<rparr>)
          = detect_servers sfx by_mac raw srvs (w\<lparr>nodes := ?N2\<rparr>)"
    proof -
      have "?b \<notin> dom (nodes (w\<lparr>nodes := N\<rparr>))" using nb by (simp add: dom_def)
      moreover have "Node (srv_name s) empty_info (w\<lparr>nodes := N\<rparr>) None None = ?nd"
        by simp
      ultimately show ?thesis
        using True ap by (simp add: andthen_def del: fun_upd_apply)
    qed
    have ndeq: "?nd' = snd (?entry s)"
      by (simp add: Node_def)
    from Cons.IH [of ?N2, OF d disj ok] have
      run: "detect_servers sfx by_mac raw srvs (w\<lparr>nodes := ?N2\<rparr>)
          = Some (Ok (), w\<lparr>nodes := ?N2 ++ map_of ?rest\<rparr>)" .
    have keys: "fst ` set ?rest = set (base_names sfx (map srv_name srvs))"
      by (auto simp: base_names_def filter_map comp_def image_iff)
    have "map_of ?rest ?b = None"
      using fresh keys by (simp add: map_of_eq_None_iff)
    then have eq: "?N2 ++ map_of ?rest = N ++ map_of ((?b, ?nd') # ?rest)"
      by (intro ext) (auto simp: map_add_def split: option.splits)
    have flt: "map ?entry (filter (\<lambda>s. endswith (srv_name s) sfx) (s # srvs)) = (?b, ?nd') # ?rest"
      using True ndeq by simp
    show ?thesis unfolding step flt run eq by (rule refl)
  qed
qed

text \<open>
  The run of \<open>detect_existing_resources\<close> up to the listing of the security groups,
  when the networks do not collide and the listings are consistent.
\<close>

lemma detect_prefix:
  assumes quiet: "\<forall>t call. raises c t call = None"
    and empty: "networks w = Map.empty"
    and nets: "distinct (base_names (add_suffix w []) (map net_name (all_networks c (tick w))))"
    and ports: "ports_consistent c (tick w)"
  shows "\<exists>raw raw' N.
      map port_mac raw = map lp_mac_address (all_ports c (tick w + 1))
    \<and> N = map_of (map (\<lambda>n. (strip_suffix (add_suffix w []) (net_name n), net_id n))
                     (filter (\<lambda>n. endswith (net_name n) (add_suffix w []))
                        (all_networks c (tick w))))
    \<and> detect_existing_resources c w =
        andthen (detect_secgroups (add_suffix w []) (all_security_groups c (tick w + 3))) (\<lambda>_.
        andthen (api c Servers_list) (\<lambda>t.
          detect_servers (add_suffix w []) (index_from port_mac 0 raw Map.empty) raw'
            (all_servers c t)))
          (w\<lparr>networks := N, tick := tick w + 4,
             calls := calls w @ [List_networks, List_ports, List_floatingips,
                                 List_security_groups]\<rparr>)"
proof -
  let ?sfx = "add_suffix w []"
  let ?t = "tick w"
  let ?N = "map_of (map (\<lambda>n. (strip_suffix ?sfx (net_name n), net_id n))
                     (filter (\<lambda>n. endswith (net_name n) ?sfx) (all_networks c ?t)))"
  define w1 where "w1 = w\<lparr>tick := Suc ?t, calls := calls w @ [List_networks]\<rparr>"
  have a1: "api c List_networks w = Some (Ok ?t, w1)"
    using quiet by (simp add: api_def Let_def w1_def)
  have "networks w1 = Map.empty" by (simp add: w1_def empty)
  then have "set (base_names ?sfx (map net_name (all_networks c ?t))) \<inter> dom (networks w1) = {}"
    by simp
  from detect_networks_ok [OF nets this, of Map.empty] obtain nbi where
    n0: "detect_networks ?sfx (all_networks c ?t) Map.empty w1
        = Some (Ok nbi, w1\<lparr>networks := networks w1 ++ ?N\<rparr>)"
    by blast
  define w2 where "w2 = w1\<lparr>networks := ?N\<rparr>"
  have n: "detect_networks ?sfx (all_networks c ?t) Map.empty w1 = Some (Ok nbi, w2)"
    using n0 \<open>networks w1 = Map.empty\<close> by (simp add: w2_def)
  define w3 where "w3 = w2\<lparr>tick := ?t + 2, calls := calls w @ [List_networks, List_ports]\<rparr>"
  have a2: "api c List_ports w2 = Some (Ok (?t + 1), w3)"
    using quiet by (simp add: api_def Let_def w1_def w2_def w3_def)
  from ports have p1: "\<forall>p \<in> set (all_ports c (?t + 1)). lp_fixed_ips p \<noteq> []"
    by (simp add: ports_consistent_def)
  from raw_ports_ok [OF p1, of nbi] obtain raw where
    rp: "raw_ports nbi (all_ports c (?t + 1)) = Inr raw"
    and ids: "map port_id raw = map lp_id (all_ports c (?t + 1))"
    and macs: "map port_mac raw = map lp_mac_address (all_ports c (?t + 1))"
    by blast
  define w4 where "w4 = w3\<lparr>tick := ?t + 3,
      calls := calls w @ [List_networks, List_ports, List_floatingips]\<rparr>"
  have a3: "api c List_floatingips w3 = Some (Ok (?t + 2), w4)"
    using quiet by (simp add: api_def Let_def w3_def w4_def)
  have "dom (index_from port_id 0 raw Map.empty) = lp_id ` set (all_ports c (?t + 1))"
    using ids by (simp add: index_from_dom) (metis list.set_map)
  with ports have "\<forall>fip \<in> set (all_floatingips c (?t + 2)). \<forall>pid.
      fip_port_id fip = Some pid \<longrightarrow> pid \<noteq> [] \<longrightarrow> pid \<in> dom (index_from port_id 0 raw Map.empty)"
    by (simp add: ports_consistent_def)
  from attach_floatingips_ok [OF this, of raw] obtain raw' where
    af: "attach_floatingips (index_from port_id 0 raw Map.empty) (all_floatingips c (?t + 2)) raw
        = Inr raw'"
    by blast
  define w5 where "w5 = w4\<lparr>tick := ?t + 4,
      calls := calls w @ [List_networks, List_ports, List_floatingips, List_security_groups]\<rparr>"
  have a4: "api c List_security_groups w4 = Some (Ok (?t + 3), w5)"
    using quiet by (simp add: api_def Let_def w4_def w5_def)
  have w5: "w5 = w\<lparr>networks := ?N, tick := ?t + 4,
             calls := calls w @ [List_networks, List_ports, List_floatingips,
                                 List_security_groups]\<rparr>"
    by (simp add: w5_def w4_def w3_def w2_def w1_def)
  have "detect_existing_resources c w =
        andthen (detect_secgroups ?sfx (all_security_groups c (?t + 3))) (\<lambda>_.
        andthen (api c Servers_list) (\<lambda>t.
          detect_servers ?sfx (index_from port_mac 0 raw Map.empty) raw'
            (all_servers c t))) w5"
    unfolding detect_existing_resources_def
    by (subst andthen_def, simp only: a1 option.case prod.case res.case,
        subst andthen_def, simp only: n option.case prod.case res.case,
        subst andthen_def, simp only: a2 option.case prod.case res.case rp sum.case,
        subst andthen_def, simp only: a3 option.case prod.case res.case af sum.case,
        subst andthen_def, simp only: a4 option.case prod.case res.case)
  with macs show ?thesis unfolding w5 by blast
qed


lemma detect_tail_servers:
  assumes quiet: "\<forall>t call. raises c t call = None"
    and empty: "secgroups W = Map.empty" "nodes W = Map.empty"
    and sgs: "distinct (base_names sfx (map sg_name (all_security_groups c t3)))"
    and ok: "\<forall>s \<in> set (all_servers c (tick W)). \<forall>a \<in> set (srv_addresses s).
               a \<noteq> [] \<and> hd a \<in> dom by_mac"
  shows "(\<not> distinct (base_names sfx (map srv_name (all_servers c (tick W)))) \<longrightarrow>
          (\<exists>nm w'. andthen (detect_secgroups sfx (all_security_groups c t3)) (\<lambda>_.
              andthen (api c Servers_list) (\<lambda>t.
                detect_servers sfx by_mac raw' (all_servers c t))) W
            = Some (Raise (DuplicateResourceException ''Node'' nm), w')))
       \<and> (distinct (base_names sfx (map srv_name (all_servers c (tick W)))) \<longrightarrow>
          andthen (detect_secgroups sfx (all_security_groups c t3)) (\<lambda>_.
              andthen (api c Servers_list) (\<lambda>t.
                detect_servers sfx by_mac raw' (all_servers c t))) W
            = Some (Ok (), W\<lparr>
                secgroups := map_of (map (\<lambda>g. (strip_suffix sfx (sg_name g), sg_id g))
                               (filter (\<lambda>g. endswith (sg_name g) sfx) (all_security_groups c t3))),
                nodes := map_of (map (\<lambda>s. (strip_suffix sfx (srv_name s),
                                    (Node (srv_name s) empty_info W None None)
                                      \<lparr>ports := map (\<lambda>a. raw' ! the (by_mac (hd a)))
                                                  (srv_addresses s)\<rparr>))
                           (filter (\<lambda>s. endswith (srv_name s) sfx) (all_servers c (tick W)))),
                tick := Suc (tick W), calls := calls W @ [Servers_list]\<rparr>))"
proof -
  let ?SG = "map_of (map (\<lambda>g. (strip_suffix sfx (sg_name g), sg_id g))
                               (filter (\<lambda>g. endswith (sg_name g) sfx) (all_security_groups c t3)))"
  let ?srvs = "all_servers c (tick W)"
  let ?tail = "andthen (detect_secgroups sfx (all_security_groups c t3)) (\<lambda>_.
              andthen (api c Servers_list) (\<lambda>t.
                detect_servers sfx by_mac raw' (all_servers c t)))"
  define W6 where "W6 = W\<lparr>secgroups := ?SG\<rparr>"
  have "set (base_names sfx (map sg_name (all_security_groups c t3))) \<inter> dom (secgroups W) = {}"
    using empty(1) by simp
  from detect_secgroups_ok [OF sgs this]
  have sg: "detect_secgroups sfx (all_security_groups c t3) W = Some (Ok (), W6)"
    using empty(1) by (simp add: W6_def)
  define W7 where "W7 = W6\<lparr>tick := Suc (tick W), calls := calls W @ [Servers_list]\<rparr>"
  have a5: "api c Servers_list W6 = Some (Ok (tick W), W7)"
    using quiet by (simp add: api_def Let_def W6_def W7_def)
  have W7n: "W7 = W7\<lparr>nodes := Map.empty\<rparr>"
    using empty(2) by (simp add: W7_def W6_def)
  have tail: "?tail W = detect_servers sfx by_mac raw' ?srvs (W7\<lparr>nodes := Map.empty\<rparr>)"
    by (subst andthen_def, simp only: sg option.case prod.case res.case,
        subst andthen_def, simp only: a5 option.case prod.case res.case, subst W7n, rule refl)
  show ?thesis
  proof (intro conjI impI)
    assume "\<not> distinct (base_names sfx (map srv_name ?srvs))"
    then have "\<not> distinct (base_names sfx (map srv_name ?srvs))
        \<or> set (base_names sfx (map srv_name ?srvs)) \<inter> dom (Map.empty :: string \<rightharpoonup> node) \<noteq> {}"
      by simp
    from detect_servers_dup [OF this ok, of raw' W7]
    show "\<exists>nm w'. ?tail W = Some (Raise (DuplicateResourceException ''Node'' nm), w')"
      unfolding tail .
  next
    assume d: "distinct (base_names sfx (map srv_name ?srvs))"
    have "set (base_names sfx (map srv_name ?srvs)) \<inter> dom (Map.empty :: string \<rightharpoonup> node) = {}"
      by simp
    from detect_servers_ok [OF d this ok, of raw' W7]
    have "?tail W = Some (Ok (), W7\<lparr>nodes := Map.empty ++
                 map_of (map (\<lambda>s. (strip_suffix sfx (srv_name s),
                                    (Node (srv_name s) empty_info W7 None None)
                                      \<lparr>ports := map (\<lambda>a. raw' ! the (by_mac (hd a)))
                                                  (srv_addresses s)\<rparr>))
                           (filter (\<lambda>s. endswith (srv_name s) sfx) ?srvs))\<rparr>)"
      unfolding tail .
    moreover have "Node nm empty_info W7 None None = Node nm empty_info W None None" for nm
      by (simp add: Node_def W7_def W6_def)
    ultimately show "?tail W = Some (Ok (), W\<lparr>
                secgroups := ?SG,
                nodes := map_of (map (\<lambda>s. (strip_suffix sfx (srv_name s),
                                    (Node (srv_name s) empty_info W None None)
                                      \<lparr>ports := map (\<lambda>a. raw' ! the (by_mac (hd a)))
                                                  (srv_addresses s)\<rparr>))
                           (filter (\<lambda>s. endswith (srv_name s) sfx) ?srvs)),
                tick := Suc (tick W), calls := calls W @ [Servers_list]\<rparr>)"
      by (simp add: W7_def W6_def)
  qed
qed


lemma index_from_port_mac_dom:
  assumes "map port_mac raw = map lp_mac_address ps"
  shows "dom (index_from port_mac 0 raw Map.empty) = lp_mac_address ` set ps"
proof -
  have "port_mac ` set raw = set (map port_mac raw)" by simp
  also have "\<dots> = lp_mac_address ` set ps" unfolding assms by simp
  finally show ?thesis by (simp add: index_from_dom)
qed



text \<open>
  Claim C10. With no suffix configured (none, or the empty one) the pattern is empty:
  every name ends with it and nothing is stripped. On a runner whose tables are empty,
  with a cloud whose calls do not raise, whose listings are consistent and in which no
  two networks, no two security groups and no two servers share a name, reconciliation
  returns normally and has entered every listed network and security group under its
  full name with its id, and every listed server under its full name as a node of that
  name.
\<close>

theorem reconcile_without_suffix:
  assumes "\<forall>t call. raises c t call = None"
    and "networks w = Map.empty" and "secgroups w = Map.empty" and "nodes w = Map.empty"
    and "suffix w = None \<or> suffix w = Some []"
    and "distinct (map net_name (all_networks c (tick w)))"
    and "distinct (map sg_name (all_security_groups c (tick w + 3)))"
    and "distinct (map srv_name (all_servers c (tick w + 4)))"
    and "ports_consistent c (tick w)" and "servers_consistent c (tick w)"
  shows "add_suffix w [] = []
       \<and> (\<forall>s. endswith s (add_suffix w []) \<and> strip_suffix (add_suffix w []) s = s)
       \<and> (\<exists>w'. detect_existing_resources c w = Some (Ok (), w')
             \<and> networks w' = map_of (map (\<lambda>n. (net_name n, net_id n)) (all_networks c (tick w)))
             \<and> secgroups w' = map_of (map (\<lambda>g. (sg_name g, sg_id g))
                                         (all_security_groups c (tick w + 3)))
             \<and> dom (nodes w') = srv_name ` set (all_servers c (tick w + 4))
             \<and> (\<forall>s \<in> set (all_servers c (tick w + 4)).
                   \<exists>nd. nodes w' (srv_name s) = Some nd \<and> node_name nd = srv_name s))"
proof -
  have sfx: "add_suffix w [] = []"
    using assms(5) by (auto simp: add_suffix_def)
  have all: "endswith s [] \<and> strip_suffix [] s = s" for s
    by (simp add: endswith_def strip_suffix_def)
  have st: "strip_suffix [] s = s" for s
    by (simp add: strip_suffix_def)
  have flt: "filter (\<lambda>x. endswith (f x) []) xs = xs" for f :: "'a \<Rightarrow> string" and xs
    by (simp add: endswith_def)
  have bn: "base_names [] names = names" for names
    unfolding base_names_def flt by (rule map_idI) (rule st)
  have nets: "distinct (base_names (add_suffix w []) (map net_name (all_networks c (tick w))))"
    unfolding sfx bn by (rule assms(6))
  from detect_prefix [OF assms(1,2) nets assms(9)] obtain raw raw' N where
    macs: "map port_mac raw = map lp_mac_address (all_ports c (tick w + 1))"
    and N: "N = map_of (map (\<lambda>n. (net_name n, net_id n)) (all_networks c (tick w)))"
    and run: "detect_existing_resources c w =
        andthen (detect_secgroups [] (all_security_groups c (tick w + 3))) (\<lambda>_.
        andthen (api c Servers_list) (\<lambda>t.
          detect_servers [] (index_from port_mac 0 raw Map.empty) raw'
            (all_servers c t)))
          (w\<lparr>networks := N, tick := tick w + 4,
             calls := calls w @ [List_networks, List_ports, List_floatingips,
                                 List_security_groups]\<rparr>)"
    unfolding sfx flt st by blast
  let ?W = "w\<lparr>networks := N, tick := tick w + 4,
             calls := calls w @ [List_networks, List_ports, List_floatingips,
                                 List_security_groups]\<rparr>"
  let ?by_mac = "index_from port_mac 0 raw Map.empty"
  let ?srvs = "all_servers c (tick w + 4)"
  let ?entry = "\<lambda>s. (srv_name s, (Node (srv_name s) empty_info ?W None None)
                       \<lparr>ports := map (\<lambda>a. raw' ! the (?by_mac (hd a))) (srv_addresses s)\<rparr>)"
  have e: "secgroups ?W = Map.empty" "nodes ?W = Map.empty"
    using assms(3,4) by simp_all
  have tk: "tick ?W = tick w + 4" by simp
  have ok: "\<forall>s \<in> set (all_servers c (tick ?W)). \<forall>a \<in> set (srv_addresses s).
               a \<noteq> [] \<and> hd a \<in> dom ?by_mac"
    using assms(10) unfolding tk index_from_port_mac_dom [OF macs] servers_consistent_def by blast
  have sg: "distinct (base_names [] (map sg_name (all_security_groups c (tick w + 3))))"
    unfolding bn by (rule assms(7))
  have sv: "distinct (base_names [] (map srv_name (all_servers c (tick ?W))))"
    unfolding bn tk by (rule assms(8))
  from detect_tail_servers [OF assms(1) e sg ok, THEN conjunct2, rule_format, OF sv, of raw']
  have fin: "detect_existing_resources c w = Some (Ok (), ?W\<lparr>
                secgroups := map_of (map (\<lambda>g. (sg_name g, sg_id g))
                               (all_security_groups c (tick w + 3))),
                nodes := map_of (map ?entry ?srvs),
                tick := Suc (tick ?W), calls := calls ?W @ [Servers_list]\<rparr>)"
    unfolding run flt st tk .
  let ?w' = "?W\<lparr>secgroups := map_of (map (\<lambda>g. (sg_name g, sg_id g))
                               (all_security_groups c (tick w + 3))),
                nodes := map_of (map ?entry ?srvs),
                tick := Suc (tick ?W), calls := calls ?W @ [Servers_list]\<rparr>"
  have n1: "networks ?w' = map_of (map (\<lambda>n. (net_name n, net_id n)) (all_networks c (tick w)))"
    using N by simp
  have n2: "secgroups ?w' = map_of (map (\<lambda>g. (sg_name g, sg_id g))
                                         (all_security_groups c (tick w + 3)))"
    by simp
  have nd: "nodes ?w' = map_of (map ?entry ?srvs)" by simp
  have n3: "dom (nodes ?w') = srv_name ` set ?srvs"
    unfolding nd by (simp add: dom_map_of_conv_image_fst image_image)
  have n4: "\<forall>s \<in> set ?srvs. \<exists>nd. nodes ?w' (srv_name s) = Some nd \<and> node_name nd = srv_name s"
  proof
    fix s assume s: "s \<in> set ?srvs"
    let ?nd = "(Node (srv_name s) empty_info ?W None None)
                       \<lparr>ports := map (\<lambda>a. raw' ! the (?by_mac (hd a))) (srv_addresses s)\<rparr>"
    have d: "distinct (map fst (map ?entry ?srvs))"
      using assms(8) by (simp add: comp_def)
    have "(srv_name s, ?nd) \<in> set (map ?entry ?srvs)"
      unfolding set_map using s by (rule image_eqI [rotated]) simp
    with d have "map_of (map ?entry ?srvs) (srv_name s) = Some ?nd"
      by (rule map_of_is_SomeI)
    moreover have "node_name ?nd = srv_name s" by (simp add: Node_def)
    ultimately show "\<exists>nd. nodes ?w' (srv_name s) = Some nd \<and> node_name nd = srv_name s"
      unfolding nd by blast
  qed
  have "\<exists>w'. detect_existing_resources c w = Some (Ok (), w')
             \<and> networks w' = map_of (map (\<lambda>n. (net_name n, net_id n)) (all_networks c (tick w)))
             \<and> secgroups w' = map_of (map (\<lambda>g. (sg_name g, sg_id g))
                                         (all_security_groups c (tick w + 3)))
             \<and> dom (nodes w') = srv_name ` set (all_servers c (tick w + 4))
             \<and> (\<forall>s \<in> set (all_servers c (tick w + 4)).
                   \<exists>nd. nodes w' (srv_name s) = Some nd \<and> node_name nd = srv_name s)"
    using fin n1 n2 n3 n4 by (intro exI [of _ ?w'] conjI)
  moreover have "\<forall>s. endswith s (add_suffix w []) \<and> strip_suffix (add_suffix w []) s = s"
    unfolding sfx using all by blast
  ultimately show ?thesis using sfx by blast
qed

theorem reconcile_without_suffix_witness:
  "\<exists>w'. detect_existing_resources
          ((steady_cloud ''ACTIVE'')\<lparr>
             all_networks := (\<lambda>t. [\<lparr>net_name = ''private'', net_id = ''n1''\<rparr>,
                                     \<lparr>net_name = ''public_env1'', net_id = ''n2''\<rparr>]),
             all_ports := (\<lambda>t. [\<lparr>lp_id = ''p1'', lp_fixed_ips = [''10.0.0.2''],
                                  lp_mac_address = ''m1'', lp_network_id = ''n1''\<rparr>]),
             all_security_groups := (\<lambda>t. [\<lparr>sg_name = ''default'', sg_id = ''g1''\<rparr>]),
             all_servers := (\<lambda>t. [\<lparr>srv_name = ''web'', srv_addresses = [[''m1'']]\<rparr>])\<rparr>)
          (DeploymentRunner None None 0) = Some (Ok (), w')
     \<and> networks w' ''private'' = Some ''n1''
     \<and> networks w' ''public_env1'' = Some ''n2''
     \<and> secgroups w' ''default'' = Some ''g1''
     \<and> dom (nodes w') = {''web''}"
proof -
  let ?w = "DeploymentRunner None None 0"
  let ?c = "(steady_cloud ''ACTIVE'')\<lparr>
             all_networks := (\<lambda>t. [\<lparr>net_name = ''private'', net_id = ''n1''\<rparr>,
                                     \<lparr>net_name = ''public_env1'', net_id = ''n2''\<rparr>]),
             all_ports := (\<lambda>t. [\<lparr>lp_id = ''p1'', lp_fixed_ips = [''10.0.0.2''],
                                  lp_mac_address = ''m1'', lp_network_id = ''n1''\<rparr>]),
             all_security_groups := (\<lambda>t. [\<lparr>sg_name = ''default'', sg_id = ''g1''\<rparr>]),
             all_servers := (\<lambda>t. [\<lparr>srv_name = ''web'', srv_addresses = [[''m1'']]\<rparr>])\<rparr>"
  have q: "\<forall>t call. raises ?c t call = None"
    by (simp add: steady_cloud_def)
  have e: "networks ?w = Map.empty" "secgroups ?w = Map.empty" "nodes ?w = Map.empty"
    "suffix ?w = None \<or> suffix ?w = Some []"
    by (simp_all add: DeploymentRunner_def)
  have d: "distinct (map net_name (all_networks ?c (tick ?w)))"
    "distinct (map sg_name (all_security_groups ?c (tick ?w + 3)))"
    "distinct (map srv_name (all_servers ?c (tick ?w + 4)))"
    "ports_consistent ?c (tick ?w)" "servers_consistent ?c (tick ?w)"
    by (simp_all add: ports_consistent_def servers_consistent_def steady_cloud_def)
  from reconcile_without_suffix [OF q e d] obtain w' where
    "detect_existing_resources ?c ?w = Some (Ok (), w')"
    "networks w' = map_of (map (\<lambda>n. (net_name n, net_id n)) (all_networks ?c (tick ?w)))"
    "secgroups w' = map_of (map (\<lambda>g. (sg_name g, sg_id g)) (all_security_groups ?c (tick ?w + 3)))"
    "dom (nodes w') = srv_name ` set (all_servers ?c (tick ?w + 4))"
    by blast
  then show ?thesis by (intro exI [of _ w']) simp
qed

subsection \<open>Shell steps\<close>

text \<open>
  \<open>run_cmd_once\<close> raises the timeout only with a deadline, and after a reading of the
  clock beyond it.
\<close>

lemma run_cmd_once_timed_out:
  assumes "run_cmd_once deadline obs = Some (Raise CommandTimedOutException)"
  shows "\<exists>d now. deadline = Some d \<and> now \<in> snd ` set obs \<and> d < now"
  using assms
proof (induction obs)
  case Nil
  then show ?case by simp
next
  case (Cons ob obs)
  obtain returncode now where o: "ob = (returncode, now)" by (cases ob)
  show ?case
  proof (cases "run_cmd_once deadline obs = Some (Raise CommandTimedOutException)")
    case True
    from Cons.IH [OF this] show ?thesis by auto
  next
    case False
    with Cons.prems o show ?thesis
      by (auto split: option.splits if_splits)
  qed
qed

text \<open>
  An attempt that failed is tried again exactly when \<open>retry-if-fails\<close> is set; without
  \<open>retry-if-fails\<close> the first attempt that ends is the only one.
\<close>

lemma shell_loop_failed:
  assumes "run_cmd_once (attempt_deadline lmt od (started a)) (observed a)
             = Some (Raise CommandFailedException)"
  shows "shell_loop retry delay lmt od (a # rest) n =
           (if retry then shell_loop retry delay lmt od rest (Suc n)
            else Some (Suc n, Raise CommandFailedException))"
  using assms by simp

lemma shell_loop_single_attempt:
  assumes "run_cmd_once (attempt_deadline lmt od (started a)) (observed a) = Some r"
  shows "shell_loop False delay lmt od (a # rest) n = Some (Suc n, r)"
  using assms by (cases r) (auto split: exn.splits dest: run_cmd_once_timed_out)

text \<open>
  An attempt that timed out is never tried again, when the delay is not negative and
  the clock does not run backwards: the test of the handler compares with the deadline
  of the attempt that has just expired.
\<close>

lemma shell_loop_timed_out:
  assumes "run_cmd_once (attempt_deadline lmt od (started a)) (observed a)
             = Some (Raise CommandTimedOutException)"
    and "0 \<le> delay" and "\<forall>now \<in> snd ` set (observed a). now \<le> handled a"
  shows "shell_loop retry delay lmt od (a # rest) n = Some (Suc n, Raise CommandTimedOutException)"
proof -
  from run_cmd_once_timed_out [OF assms(1)] obtain d now where
    d: "attempt_deadline lmt od (started a) = Some d"
    and "now \<in> snd ` set (observed a)" "d < now"
    by blast
  with assms(2,3) have "\<not> handled a + delay < d" by fastforce
  with assms(1) d show ?thesis by simp
qed

text \<open>
  Claim C4, at a failing input. A step with \<open>retry-if-fails\<close>, ten seconds per attempt,
  a hundred seconds in total and a pause of one second. The first attempt is still
  running at 10.5 seconds and is timed out; the second attempt would exit with code 0.
  When the handler runs, 89.5 seconds of the total remain, but the step ends with the
  timeout after one attempt.
\<close>

theorem shell_step_timeout_not_retried:
  "shell_step \<lparr>total_timeout = Some 100, timeout = Some 10, retry_delay = Some 1,
               retry_if_fails = True\<rparr> 0
     [\<lparr>started = 0, observed = [(None, 5), (None, 10.5)], handled = 10.5\<rparr>,
      \<lparr>started = 11.5, observed = [(Some 0, 12)], handled = 12\<rparr>]
   = Some (1, Raise CommandTimedOutException)"
  by (simp add: shell_step_def attempt_deadline_def)

subsection \<open>The ledger of a provisioning run\<close>

lemmas run_defs = eval_defs provision_step_def poll_pending_nodes_def poll_def
  await_pending.simps add_pending_def ledger_line_def string_of_nat.simps


text \<open>
  Claim C1, at a failing input. A stack of one node with one network attachment that
  asks for a floating IP is provisioned with the cleanup file as the ledger, on a cloud
  where nothing fails. The run creates a port, a floating IP, a volume and a server, and
  returns normally. The ledger holds the entries of the port, of the floating IP and of
  the server, and no entry for the volume: \<open>build\<close> hands the volume to the node's own
  \<open>record_resource\<close>, which does nothing, and not to the runner's.
\<close>

theorem provision_ledger_lacks_volume:
  "\<exists>w'. provision_step (steady_cloud ''ACTIVE'')
            \<lparr>stack_networks = Some [], stack_securitygroups = Some [],
             stack_nodes = Some [(''web'', web_template)]\<rparr> None
            ((DeploymentRunner (Some ''env1'') None 0)\<lparr>runner_record_resource := Cleanup_file\<rparr>)
          = Some (Ok (), w')
        \<and> calls w' = [Flavors_get ''m1.small'',
                      Create_port ''web_env1_eth0'' ''private'' [],
                      List_networks_external,
                      Create_floatingip ''public'',
                      Update_floatingip ''id3'' ''id1'',
                      Volumes_create 10 ''trusty'',
                      Servers_create ''web_env1'' ''id5'' (Some ''m1.small'') [''id1''] None None,
                      Servers_get (Some ''id6'')]
        \<and> cleanup_file w' = concat (map ledger_line
              [(''port'', ''id1''), (''floatingip'', ''id3''), (''server'', ''id6'')])"
  by (simp add: run_defs)

end
